theory Spec2Isabelle
  imports Complex_Main "HOL-Library.AList"
begin

section \<open>Python values, documents and the document store\<close>

text \<open>
  The four scripts exchange data through MongoDB collections of documents. A value of
  a document or of a table cell is a Python object as \<^verbatim>\<open>json\<close>, \<^verbatim>\<open>pymongo\<close> and
  \<^verbatim>\<open>pandas\<close> hand it over. \<open>NA\<close> stands for both \<^verbatim>\<open>None\<close> and the float
  \<^verbatim>\<open>NaN\<close>: \<^verbatim>\<open>isnull\<close>, \<^verbatim>\<open>dropna\<close> and \<^verbatim>\<open>fillna\<close> treat them alike. Floats are
  real numbers here (rounding, infinities and overflow of \<^verbatim>\<open>float64\<close> are left out).
\<close>

datatype pyval =
    NA
  | PInt int
  | PFloat real
  | PStr string
  | PBool bool
  | PDatetime nat
  | PList "pyval list"
  | PDict "(string \<times> pyval) list"

text \<open>A document is a Python \<^verbatim>\<open>dict\<close> with string keys, in insertion order;
  \<^verbatim>\<open>d[k] = v\<close> is \<^const>\<open>AList.update\<close>. The \<^verbatim>\<open>_id\<close> key that the store adds to
  every inserted document is left out: the cleaning stage drops it first thing.\<close>

type_synonym doc = "(string \<times> pyval) list"

type_synonym db = "(string \<times> doc list) list"

datatype exn = RequestException | ValueError | TypeError | EncodeError

definition coll :: "db \<Rightarrow> string \<Rightarrow> doc list" where
  "coll d n = (case map_of d n of Some c \<Rightarrow> c | None \<Rightarrow> [])"

text \<open>\<^verbatim>\<open>collection.delete_many({})\<close>: every document goes; a collection that does
  not exist is not created.\<close>

definition delete_many_all :: "string \<Rightarrow> db \<Rightarrow> db" where
  "delete_many_all n d = (case map_of d n of Some c \<Rightarrow> AList.update n [] d | None \<Rightarrow> d)"

text \<open>
  The driver encodes a document as BSON before it sends it, and raises when it cannot
  (\<^verbatim>\<open>OverflowError\<close> for an integer beyond 64 bits, \<^verbatim>\<open>InvalidDocument\<close> for a value
  BSON has no type for); \<open>EncodeError\<close> stands for either. Which documents the driver
  can encode is the parameter \<open>enc\<close> of every insertion. The batches of this pipeline
  (2500 small documents at most) are encoded as a whole before anything is sent, so
  a batch with such a document stores nothing.
\<close>

definition insert_one :: "(doc \<Rightarrow> bool) \<Rightarrow> string \<Rightarrow> doc \<Rightarrow> db \<Rightarrow> exn + db" where
  "insert_one enc n x d =
     (if enc x then Inr (AList.update n (coll d n @ [x]) d) else Inl EncodeError)"

text \<open>\<^verbatim>\<open>collection.insert_many(docs)\<close> raises \<^verbatim>\<open>TypeError\<close> ("documents must be a
  non-empty list") on an empty list, before it encodes anything.\<close>

definition insert_many :: "(doc \<Rightarrow> bool) \<Rightarrow> string \<Rightarrow> doc list \<Rightarrow> db \<Rightarrow> exn + db" where
  "insert_many enc n xs d =
     (if xs = [] then Inl TypeError
      else if list_all enc xs then Inr (AList.update n (coll d n @ xs) d)
      else Inl EncodeError)"

text \<open>One thing the driver asks of a document: every integer in it, at any depth, fits
  64 bits. This predicate is the \<open>enc\<close> of the examples.\<close>

definition in_int64 :: "int \<Rightarrow> bool" where
  "in_int64 i = (- (2 ^ 63) \<le> i \<and> i < 2 ^ 63)"

fun int64_only :: "pyval \<Rightarrow> bool" where
  "int64_only (PInt i) = in_int64 i"
| "int64_only (PList xs) = list_all int64_only xs"
| "int64_only (PDict kvs) = list_all (\<lambda>kv. int64_only (snd kv)) kvs"
| "int64_only v = True"

definition int64_doc :: "doc \<Rightarrow> bool" where
  "int64_doc x = list_all (\<lambda>kv. int64_only (snd kv)) x"

text \<open>\<^verbatim>\<open>find({"is_metadata": {"$ne": True}})\<close>: the documents whose field is absent
  or differs from \<^verbatim>\<open>true\<close> (an array field matches \<^verbatim>\<open>$ne\<close> only if no element equals
  the value).\<close>

definition ne_true :: "pyval option \<Rightarrow> bool" where
  "ne_true v = (case v of
      None \<Rightarrow> True
    | Some (PBool b) \<Rightarrow> \<not> b
    | Some (PList xs) \<Rightarrow> PBool True \<notin> set xs
    | Some _ \<Rightarrow> True)"

definition find_non_metadata :: "doc list \<Rightarrow> doc list" where
  "find_non_metadata c = filter (\<lambda>x. ne_true (map_of x ''is_metadata'')) c"

text \<open>\<^verbatim>\<open>count_documents({})\<close>: the empty filter matches every document.\<close>

definition count_documents_all :: "doc list \<Rightarrow> nat" where
  "count_documents_all c = length c"

definition list_collection_names :: "db \<Rightarrow> string list" where
  "list_collection_names d = map fst d"

text \<open>The summary loop of stages 1 and 2:
  \<^verbatim>\<open>for col in collections: count = db[col].count_documents({})\<close>.\<close>

definition collection_summary :: "db \<Rightarrow> (string \<times> nat) list" where
  "collection_summary d = map (\<lambda>n. (n, count_documents_all (coll d n))) (list_collection_names d)"

section \<open>Decimal strings\<close>

definition digit_chars :: string where
  "digit_chars = ''0123456789''"

definition is_digit :: "char \<Rightarrow> bool" where
  "is_digit c = (c \<in> set digit_chars)"

function digits_of :: "nat \<Rightarrow> string" where
  "digits_of n = (if n < 10 then [digit_chars ! n] else digits_of (n div 10) @ [digit_chars ! (n mod 10)])"
  by pat_completeness auto
termination
  by (relation "measure id") auto

declare digits_of.simps [simp del]

text \<open>\<^verbatim>\<open>str(i)\<close> of a Python \<^verbatim>\<open>int\<close>.\<close>

definition str_int :: "int \<Rightarrow> string" where
  "str_int i = (if i < 0 then CHR ''-'' # digits_of (nat (- i)) else digits_of (nat i))"

text \<open>\<^verbatim>\<open>s.replace(c, '')\<close> for a one-character \<^verbatim>\<open>c\<close>, and \<^verbatim>\<open>s.isdigit()\<close> (on
  ASCII text: true when the string is not empty and all its characters are digits).\<close>

definition py_remove :: "char \<Rightarrow> string \<Rightarrow> string" where
  "py_remove c s = filter (\<lambda>x. x \<noteq> c) s"

definition isdigit :: "string \<Rightarrow> bool" where
  "isdigit s = (s \<noteq> [] \<and> list_all is_digit s)"

section \<open>Stage 1: ingestion (\<^verbatim>\<open>1_data_ingestion.py\<close>)\<close>

definition SAMPLE_SIZE :: nat where
  "SAMPLE_SIZE = 2500"

definition EV_RAW_COLLECTION :: string where
  "EV_RAW_COLLECTION = ''ev_data_raw''"

definition NUTRITION_RAW_COLLECTION :: string where
  "NUTRITION_RAW_COLLECTION = ''nutrition_data_raw''"

definition EV_API_URL :: string where
  "EV_API_URL = ''https://data.wa.gov/api/views/f6w7-q2d2/rows.json?accessType=DOWNLOAD''"

definition NUTRITION_API_URL :: string where
  "NUTRITION_API_URL = ''https://chronicdata.cdc.gov/resource/hn4x-zwk7.json?$limit='' @ str_int (int SAMPLE_SIZE)"

text \<open>
  What \<^verbatim>\<open>requests.get(url).json()\<close> gives: either an exception (a
  \<^verbatim>\<open>RequestException\<close> from the transfer or the status check, another exception from
  the JSON decoder), or the decoded body. The EV body is the Socrata layout the script
  reads: the entries of \<^verbatim>\<open>meta.view.columns\<close> (each with an optional \<^verbatim>\<open>name\<close> and its
  other fields) and the rows of \<^verbatim>\<open>data\<close>. The nutrition body is a list of records.
\<close>

datatype 'a response = Raised exn | Body 'a

record column_meta =
  name :: "string option"
  other_fields :: "(string \<times> pyval) list"

record ev_json =
  columns_meta :: "column_meta list"
  data :: "pyval list list"

datatype message =
    ConnectionFailed exn
  | DownloadError string exn
  | ProcessingError string exn
  | RecordsInserted string nat
  | CollectionCount string nat

text \<open>\<^verbatim>\<open>[col.get("name", f"col_{i}") for i, col in enumerate(columns_meta)]\<close>\<close>

definition column_names_of :: "column_meta list \<Rightarrow> string list" where
  "column_names_of cm =
     map (\<lambda>(i, col). case name col of Some n \<Rightarrow> n | None \<Rightarrow> ''col_'' @ str_int (int i))
       (enumerate 0 cm)"

definition column_meta_doc :: "column_meta \<Rightarrow> pyval" where
  "column_meta_doc col =
     PDict ((case name col of Some n \<Rightarrow> [(''name'', PStr n)] | None \<Rightarrow> []) @ other_fields col)"

definition ev_metadata_doc :: "nat \<Rightarrow> ev_json \<Rightarrow> string list \<Rightarrow> doc" where
  "ev_metadata_doc now j column_names =
     [(''dataset_name'', PStr ''Electric Vehicle Population Data''),
      (''source'', PStr ''Washington State Department of Licensing''),
      (''format'', PStr ''JSON (Semi-structured)''),
      (''sdg_goals'', PList [PStr ''Goal 7: Clean Energy'', PStr ''Goal 11: Sustainable Cities'',
                             PStr ''Goal 13: Climate Action'']),
      (''downloaded_at'', PDatetime now),
      (''api_url'', PStr EV_API_URL),
      (''columns'', PList (map PStr column_names)),
      (''column_metadata'', PList (map column_meta_doc (columns_meta j))),
      (''total_available_records'', PInt (int (length (data j)))),
      (''sampled_records'', PInt (int SAMPLE_SIZE)),
      (''sampling_method'', PStr ''random''),
      (''is_metadata'', PBool True)]"

text \<open>
  \<^verbatim>\<open>random.sample(population, k)\<close> raises \<^verbatim>\<open>ValueError\<close> when \<open>k\<close> is larger than the
  population and otherwise returns the elements at \<open>k\<close> distinct positions, every
  such selection being as likely as any other. The generator is modelled by the order
  \<open>perm\<close> in which it would draw all the positions, a shuffle of \<open>0, ..., n - 1\<close>; the
  sample is what stands at the first \<open>k\<close> of them.
\<close>

definition shuffle_of :: "nat \<Rightarrow> nat list \<Rightarrow> bool" where
  "shuffle_of n perm = (distinct perm \<and> set perm = {..<n})"

definition random_sample :: "nat list \<Rightarrow> 'a list \<Rightarrow> nat \<Rightarrow> exn + 'a list" where
  "random_sample perm population k =
     (if k > length population then Inl ValueError
      else Inr (map (\<lambda>i. population ! i) (take k perm)))"

text \<open>\<^verbatim>\<open>if len(ev_data_rows) > SAMPLE_SIZE: sampled_rows = random.sample(ev_data_rows, SAMPLE_SIZE)\<close>
  \<^verbatim>\<open>else: sampled_rows = ev_data_rows\<close>\<close>

definition sample_rows :: "nat list \<Rightarrow> 'a list \<Rightarrow> exn + 'a list" where
  "sample_rows perm ev_data_rows =
     (if length ev_data_rows > SAMPLE_SIZE then random_sample perm ev_data_rows SAMPLE_SIZE
      else Inr ev_data_rows)"

text \<open>The rows that branch keeps (it never raises: see \<open>sample_rows_Inr\<close>).\<close>

definition sampled_rows :: "nat list \<Rightarrow> 'a list \<Rightarrow> 'a list" where
  "sampled_rows perm ev_data_rows =
     (case sample_rows perm ev_data_rows of Inr rows \<Rightarrow> rows | Inl e \<Rightarrow> [])"

text \<open>The inner loop
  \<^verbatim>\<open>for idx, value in enumerate(row): if idx < len(column_names): doc[column_names[idx]] = value\<close>.\<close>

fun ev_fill_doc :: "string list \<Rightarrow> nat \<Rightarrow> pyval list \<Rightarrow> doc \<Rightarrow> doc" where
  "ev_fill_doc column_names idx [] d = d"
| "ev_fill_doc column_names idx (v # row) d =
     ev_fill_doc column_names (Suc idx) row
       (if idx < length column_names then AList.update (column_names ! idx) v d else d)"

definition ev_internal_fields :: "nat \<Rightarrow> doc" where
  "ev_internal_fields now =
     [(''_imported_at'', PDatetime now),
      (''_dataset_name'', PStr ''Electric Vehicle Population Data''),
      (''_source'', PStr ''Washington State DOL'')]"

definition ev_document :: "nat \<Rightarrow> string list \<Rightarrow> pyval list \<Rightarrow> doc" where
  "ev_document now column_names row = ev_fill_doc column_names 0 row (ev_internal_fields now)"

text \<open>The body of the first \<^verbatim>\<open>try\<close>: the exception it raises, or the number of
  documents inserted, with the store as the body left it.\<close>

definition ev_try ::
  "(doc \<Rightarrow> bool) \<Rightarrow> nat \<Rightarrow> nat list \<Rightarrow> ev_json response \<Rightarrow> db \<Rightarrow> (exn + nat) \<times> db" where
  "ev_try enc now perm resp d =
     (case resp of
        Raised e \<Rightarrow> (Inl e, d)
      | Body ev_json_data \<Rightarrow>
          (let d1 = delete_many_all EV_RAW_COLLECTION d;
               column_names = column_names_of (columns_meta ev_json_data)
           in case insert_one enc EV_RAW_COLLECTION
                     (ev_metadata_doc now ev_json_data column_names) d1 of
                Inl e \<Rightarrow> (Inl e, d1)
              | Inr d2 \<Rightarrow>
                  (case sample_rows perm (data ev_json_data) of
                     Inl e \<Rightarrow> (Inl e, d2)
                   | Inr rows \<Rightarrow>
                       (let ev_documents = map (ev_document now column_names) rows
                        in case insert_many enc EV_RAW_COLLECTION ev_documents d2 of
                             Inl e \<Rightarrow> (Inl e, d2)
                           | Inr d3 \<Rightarrow> (Inr (length ev_documents), d3)))))"

text \<open>The two \<^verbatim>\<open>except\<close> clauses: \<^verbatim>\<open>RequestException\<close> first, any other
  \<^verbatim>\<open>Exception\<close> second; both print and go on.\<close>

definition handle_exn :: "string \<Rightarrow> exn \<Rightarrow> message" where
  "handle_exn what e = (if e = RequestException then DownloadError what e else ProcessingError what e)"

definition ev_block ::
  "(doc \<Rightarrow> bool) \<Rightarrow> nat \<Rightarrow> nat list \<Rightarrow> ev_json response \<Rightarrow> db \<Rightarrow> message list \<times> db" where
  "ev_block enc now perm resp d =
     (case ev_try enc now perm resp d of
        (Inl e, d') \<Rightarrow> ([handle_exn ''EV'' e], d')
      | (Inr n, d') \<Rightarrow> ([RecordsInserted EV_RAW_COLLECTION n], d'))"

definition nutrition_record :: "nat \<Rightarrow> doc \<Rightarrow> doc" where
  "nutrition_record now r =
     AList.update ''_source'' (PStr ''CDC - Behavioral Risk Factor Surveillance System'')
       (AList.update ''_dataset_name'' (PStr ''Nutrition, Physical Activity, and Obesity - BRFSS'')
          (AList.update ''_imported_at'' (PDatetime now) r))"

definition nutrition_metadata_doc :: "nat \<Rightarrow> doc list \<Rightarrow> doc" where
  "nutrition_metadata_doc now nutrition_json_data =
     [(''dataset_name'', PStr ''Nutrition, Physical Activity, and Obesity - BRFSS''),
      (''source'', PStr ''CDC Behavioral Risk Factor Surveillance System''),
      (''format'', PStr ''JSON API (Structured)''),
      (''sdg_goals'', PList [PStr ''Goal 2: Zero Hunger'', PStr ''Goal 3: Good Health and Well-being'']),
      (''downloaded_at'', PDatetime now),
      (''api_url'', PStr NUTRITION_API_URL),
      (''sampled_records'', PInt (int (length nutrition_json_data))),
      (''sampling_method'', PStr ''API limit parameter''),
      (''is_metadata'', PBool True)]"

definition nutrition_try ::
  "(doc \<Rightarrow> bool) \<Rightarrow> nat \<Rightarrow> doc list response \<Rightarrow> db \<Rightarrow> (exn + nat) \<times> db" where
  "nutrition_try enc now resp d =
     (case resp of
        Raised e \<Rightarrow> (Inl e, d)
      | Body nutrition_json_data \<Rightarrow>
          (let d1 = delete_many_all NUTRITION_RAW_COLLECTION d;
               nutrition_documents = map (nutrition_record now) nutrition_json_data
           in case insert_many enc NUTRITION_RAW_COLLECTION nutrition_documents d1 of
                Inl e \<Rightarrow> (Inl e, d1)
              | Inr d2 \<Rightarrow>
                  (case insert_one enc NUTRITION_RAW_COLLECTION
                          (nutrition_metadata_doc now nutrition_json_data) d2 of
                     Inl e \<Rightarrow> (Inl e, d2)
                   | Inr d3 \<Rightarrow> (Inr (length nutrition_documents), d3))))"

definition nutrition_block ::
  "(doc \<Rightarrow> bool) \<Rightarrow> nat \<Rightarrow> doc list response \<Rightarrow> db \<Rightarrow> message list \<times> db" where
  "nutrition_block enc now resp d =
     (case nutrition_try enc now resp d of
        (Inl e, d') \<Rightarrow> ([handle_exn ''Nutrition'' e], d')
      | (Inr n, d') \<Rightarrow> ([RecordsInserted NUTRITION_RAW_COLLECTION n], d'))"

text \<open>The script after the connectivity check: the EV block, the nutrition block, the
  summary of every collection.\<close>

definition ingestion ::
  "(doc \<Rightarrow> bool) \<Rightarrow> nat \<Rightarrow> nat list \<Rightarrow> ev_json response \<Rightarrow> doc list response \<Rightarrow> db
     \<Rightarrow> message list \<times> db" where
  "ingestion enc now perm ev_resp nut_resp d =
     (let (log1, d1) = ev_block enc now perm ev_resp d;
          (log2, d2) = nutrition_block enc now nut_resp d1
      in (log1 @ log2 @ map (\<lambda>(n, k). CollectionCount n k) (collection_summary d2), d2))"

section \<open>Stage 2: cleaning (\<^verbatim>\<open>2_data_cleaning.py\<close>)\<close>

text \<open>
  A \<^verbatim>\<open>DataFrame\<close> as \<^verbatim>\<open>pd.DataFrame(list(cursor))\<close> hands it to the script: the
  number of rows and the labelled columns, each with the dtype pandas gave it and one
  cell per row. The constructor itself belongs to pandas and is a parameter of the
  stage (\<open>mk_frame\<close> below). Columns of dtype \<^verbatim>\<open>bool\<close> and \<^verbatim>\<open>uint64\<close> are not
  modelled.
\<close>

datatype dtype = Float64 | Int64 | Object | Datetime64

record column =
  dtype :: dtype
  cells :: "pyval list"

record frame =
  nrows :: nat
  columns :: "(string \<times> column) list"

definition set_column :: "string \<Rightarrow> column \<Rightarrow> frame \<Rightarrow> frame" where
  "set_column n c f = f\<lparr>columns := AList.update n c (columns f)\<rparr>"

text \<open>\<^verbatim>\<open>for col in df.columns: df[col] = g(df[col])\<close>, each column on its own.\<close>

definition map_columns :: "(column \<Rightarrow> column) \<Rightarrow> frame \<Rightarrow> frame" where
  "map_columns g f = f\<lparr>columns := map (\<lambda>(n, c). (n, g c)) (columns f)\<rparr>"

definition columns_to_drop :: "string list" where
  "columns_to_drop = [''_id'', ''_imported_at'', ''_dataset_name'', ''_source'']"

definition drop_columns :: "string list \<Rightarrow> frame \<Rightarrow> frame" where
  "drop_columns ns f = f\<lparr>columns := filter (\<lambda>(n, c). n \<notin> set ns) (columns f)\<rparr>"

text \<open>\<^verbatim>\<open>df.drop(columns=[col for col in columns_to_drop if col in df.columns])\<close>\<close>

definition drop_internal :: "frame \<Rightarrow> frame" where
  "drop_internal f =
     drop_columns (filter (\<lambda>col. col \<in> set (map fst (columns f))) columns_to_drop) f"

definition dropna :: "pyval list \<Rightarrow> pyval list" where
  "dropna xs = filter (\<lambda>v. v \<noteq> NA) xs"

text \<open>\<^verbatim>\<open>df[col].dropna().iloc[0] if len(df[col].dropna()) > 0 else None\<close>\<close>

definition sample_val :: "column \<Rightarrow> pyval" where
  "sample_val c = (if length (dropna (cells c)) > 0 then hd (dropna (cells c)) else NA)"

text \<open>Truth value of a Python object, as \<^verbatim>\<open>if sample_val\<close> tests it.\<close>

fun truthy :: "pyval \<Rightarrow> bool" where
  "truthy NA = False"
| "truthy (PInt i) = (i \<noteq> 0)"
| "truthy (PFloat x) = (x \<noteq> 0)"
| "truthy (PStr s) = (s \<noteq> [])"
| "truthy (PBool b) = b"
| "truthy (PDatetime t) = True"
| "truthy (PList xs) = (xs \<noteq> [])"
| "truthy (PDict kvs) = (kvs \<noteq> [])"

text \<open>\<^verbatim>\<open>isinstance(sample_val, (int, float, str))\<close> for a value read from a column
  of the given dtype: an \<^verbatim>\<open>int64\<close> column yields \<^verbatim>\<open>numpy.int64\<close>, which is no
  \<^verbatim>\<open>int\<close>; \<^verbatim>\<open>numpy.float64\<close> is a \<^verbatim>\<open>float\<close>, and \<^verbatim>\<open>bool\<close> is an \<^verbatim>\<open>int\<close>.\<close>

fun isinstance_int_float_str :: "dtype \<Rightarrow> pyval \<Rightarrow> bool" where
  "isinstance_int_float_str dt (PInt i) = (dt \<noteq> Int64)"
| "isinstance_int_float_str dt (PFloat x) = True"
| "isinstance_int_float_str dt (PStr s) = True"
| "isinstance_int_float_str dt (PBool b) = True"
| "isinstance_int_float_str dt v = False"

text \<open>\<^verbatim>\<open>str(v)\<close>. The text of a float, a datetime or a container is left to the
  parameter \<open>ostr\<close>; a missing cell of a numeric column reads \<^verbatim>\<open>nan\<close>.\<close>

fun py_str :: "(pyval \<Rightarrow> string) \<Rightarrow> pyval \<Rightarrow> string" where
  "py_str ostr (PInt i) = str_int i"
| "py_str ostr (PStr s) = s"
| "py_str ostr (PBool b) = (if b then ''True'' else ''False'')"
| "py_str ostr NA = ''nan''"
| "py_str ostr v = ostr v"

text \<open>The test of the EV conversion loop:
  \<^verbatim>\<open>if sample_val and isinstance(sample_val, (int, float, str)):\<close>
  \<^verbatim>\<open>    if str(sample_val).replace('.', '').replace('-', '').isdigit():\<close>\<close>

definition looks_numeric :: "(pyval \<Rightarrow> string) \<Rightarrow> dtype \<Rightarrow> pyval \<Rightarrow> bool" where
  "looks_numeric ostr dt v =
     (truthy v \<and> isinstance_int_float_str dt v \<and>
      isdigit (py_remove CHR ''-'' (py_remove CHR ''.'' (py_str ostr v))))"

text \<open>
  \<^verbatim>\<open>pd.to_numeric(series, errors='coerce')\<close>. A numeric column comes back as it is.
  In an object column a number stays, a bool becomes 0 or 1, a string is read by
  pandas' number parser (the parameter \<open>parse\<close>, which answers \<open>PInt\<close>, \<open>PFloat\<close> or
  \<open>NA\<close>), and whatever cannot be read becomes missing. The result is \<^verbatim>\<open>int64\<close> when
  every cell is an integer that fits 64 bits and \<^verbatim>\<open>float64\<close> otherwise.
\<close>

fun to_numeric_cell :: "(string \<Rightarrow> pyval) \<Rightarrow> pyval \<Rightarrow> pyval" where
  "to_numeric_cell parse (PStr s) =
     (case parse s of PInt i \<Rightarrow> PInt i | PFloat x \<Rightarrow> PFloat x | _ \<Rightarrow> NA)"
| "to_numeric_cell parse (PInt i) = PInt i"
| "to_numeric_cell parse (PFloat x) = PFloat x"
| "to_numeric_cell parse (PBool b) = PInt (if b then 1 else 0)"
| "to_numeric_cell parse (PDatetime t) = PInt (int t)"
| "to_numeric_cell parse v = NA"

fun is_int64 :: "pyval \<Rightarrow> bool" where
  "is_int64 (PInt i) = in_int64 i"
| "is_int64 v = False"

fun as_float :: "pyval \<Rightarrow> pyval" where
  "as_float (PInt i) = PFloat (of_int i)"
| "as_float v = v"

definition to_numeric :: "(string \<Rightarrow> pyval) \<Rightarrow> column \<Rightarrow> column" where
  "to_numeric parse c =
     (if dtype c \<in> {Float64, Int64} then c
      else (let vs = map (to_numeric_cell parse) (cells c)
            in if list_all is_int64 vs then \<lparr>dtype = Int64, cells = vs\<rparr>
               else \<lparr>dtype = Float64, cells = map as_float vs\<rparr>))"

definition ev_convert :: "(pyval \<Rightarrow> string) \<Rightarrow> (string \<Rightarrow> pyval) \<Rightarrow> column \<Rightarrow> column" where
  "ev_convert ostr parse c =
     (if looks_numeric ostr (dtype c) (sample_val c) then to_numeric parse c else c)"

fun num_value :: "pyval \<Rightarrow> real option" where
  "num_value (PInt i) = Some (of_int i)"
| "num_value (PFloat x) = Some x"
| "num_value v = None"

definition numbers :: "pyval list \<Rightarrow> real list" where
  "numbers xs = List.map_filter num_value xs"

text \<open>\<^verbatim>\<open>series.median()\<close> skips the missing cells; of no number at all it is
  \<^verbatim>\<open>NaN\<close> (\<open>None\<close> here).\<close>

definition median :: "real list \<Rightarrow> real option" where
  "median xs =
     (let s = sort xs; n = length s
      in if n = 0 then None
         else if odd n then Some (s ! (n div 2))
         else Some ((s ! (n div 2 - 1) + s ! (n div 2)) / 2))"

definition fillna :: "pyval \<Rightarrow> pyval list \<Rightarrow> pyval list" where
  "fillna v xs = map (\<lambda>x. if x = NA then v else x) xs"

definition missing_count :: "column \<Rightarrow> nat" where
  "missing_count c = length (filter (\<lambda>v. v = NA) (cells c))"

text \<open>
  One turn of the fill loop. The turn calls \<^verbatim>\<open>df[col].fillna(value, inplace=True)\<close>
  on the column it has just selected. Up to pandas 2 the selected column shares its
  data with the table and the call fills the table; from pandas 3 on (copy-on-write)
  the selected column is a copy and the table stays as it was. The repository pins no
  version of pandas: \<open>cow\<close> says whether copy-on-write is in force. \<^verbatim>\<open>fillna(NaN)\<close>,
  which is what the median of a column without a number amounts to, changes nothing
  either way.
\<close>

definition fill_missing :: "bool \<Rightarrow> column \<Rightarrow> column" where
  "fill_missing cow c =
     (if missing_count c > 0 \<and> \<not> cow then
        (if dtype c \<in> {Float64, Int64} then
           (case median (numbers (cells c)) of
              Some m \<Rightarrow> c\<lparr>cells := fillna (PFloat m) (cells c)\<rparr>
            | None \<Rightarrow> c)
         else c\<lparr>cells := fillna (PStr ''Unknown'') (cells c)\<rparr>)
      else c)"

text \<open>\<^verbatim>\<open>df['_processed_at'] = datetime.now()\<close> and
  \<^verbatim>\<open>df['_record_id'] = range(1, len(df) + 1)\<close>\<close>

definition add_bookkeeping :: "nat \<Rightarrow> frame \<Rightarrow> frame" where
  "add_bookkeeping now f =
     set_column ''_record_id'' \<lparr>dtype = Int64, cells = map (\<lambda>i. PInt (int i)) [1..<nrows f + 1]\<rparr>
       (set_column ''_processed_at'' \<lparr>dtype = Datetime64, cells = replicate (nrows f) (PDatetime now)\<rparr> f)"

definition clean_ev ::
  "bool \<Rightarrow> nat \<Rightarrow> (pyval \<Rightarrow> string) \<Rightarrow> (string \<Rightarrow> pyval) \<Rightarrow> frame \<Rightarrow> frame" where
  "clean_ev cow now ostr parse ev_df =
     add_bookkeeping now
       (map_columns (fill_missing cow)
          (map_columns (ev_convert ostr parse)
             (drop_internal ev_df)))"

definition numeric_cols :: "string list" where
  "numeric_cols = [''data_value'', ''data_value_alt'', ''low_confidence_limit'',
                   ''high_confidence_limit'', ''sample_size'']"

definition year_cols :: "string list" where
  "year_cols = [''yearstart'', ''yearend'']"

text \<open>\<^verbatim>\<open>for col in cols: if col in df.columns: df[col] = pd.to_numeric(df[col], errors='coerce')\<close>\<close>

definition coerce_column :: "(string \<Rightarrow> pyval) \<Rightarrow> string \<Rightarrow> frame \<Rightarrow> frame" where
  "coerce_column parse col f =
     (case map_of (columns f) col of
        Some c \<Rightarrow> set_column col (to_numeric parse c) f
      | None \<Rightarrow> f)"

definition coerce_columns :: "(string \<Rightarrow> pyval) \<Rightarrow> string list \<Rightarrow> frame \<Rightarrow> frame" where
  "coerce_columns parse cols f = fold (coerce_column parse) cols f"

text \<open>\<^verbatim>\<open>df['yearstart'].astype(str) + '-' + df['yearend'].astype(str)\<close>\<close>

definition year_range_column :: "(pyval \<Rightarrow> string) \<Rightarrow> column \<Rightarrow> column \<Rightarrow> column" where
  "year_range_column ostr a b =
     \<lparr>dtype = Object,
      cells = map (\<lambda>(x, y). PStr (py_str ostr x @ ''-'' @ py_str ostr y)) (zip (cells a) (cells b))\<rparr>"

definition add_year_range :: "(pyval \<Rightarrow> string) \<Rightarrow> frame \<Rightarrow> frame" where
  "add_year_range ostr f =
     (case (map_of (columns f) ''yearstart'', map_of (columns f) ''yearend'') of
        (Some a, Some b) \<Rightarrow> set_column ''year_range'' (year_range_column ostr a b) f
      | _ \<Rightarrow> f)"

text \<open>
  Subtraction of two numeric columns, cell by cell. Two \<^verbatim>\<open>int64\<close> columns give an
  \<^verbatim>\<open>int64\<close> column, and a difference that does not fit 64 bits wraps around. In every
  other case the integers are taken as floats and the result is \<^verbatim>\<open>float64\<close>; a
  missing operand gives a missing result.
\<close>

definition wrap64 :: "int \<Rightarrow> int" where
  "wrap64 x = (x + 2 ^ 63) mod 2 ^ 64 - 2 ^ 63"

fun int64_sub :: "pyval \<Rightarrow> pyval \<Rightarrow> pyval" where
  "int64_sub (PInt a) (PInt b) = PInt (wrap64 (a - b))"
| "int64_sub x y = NA"

definition float_sub :: "pyval \<Rightarrow> pyval \<Rightarrow> pyval" where
  "float_sub x y =
     (case (num_value x, num_value y) of
        (Some a, Some b) \<Rightarrow> PFloat (a - b)
      | _ \<Rightarrow> NA)"

definition col_sub :: "column \<Rightarrow> column \<Rightarrow> column" where
  "col_sub a b =
     (if dtype a = Int64 \<and> dtype b = Int64
      then \<lparr>dtype = Int64, cells = map (\<lambda>(x, y). int64_sub x y) (zip (cells a) (cells b))\<rparr>
      else \<lparr>dtype = Float64, cells = map (\<lambda>(x, y). float_sub x y) (zip (cells a) (cells b))\<rparr>)"

text \<open>What pandas guarantees of a numeric column: an \<^verbatim>\<open>int64\<close> column holds integers
  that fit 64 bits and nothing else, a \<^verbatim>\<open>float64\<close> column holds floats and missing
  cells.\<close>

fun is_float_or_NA :: "pyval \<Rightarrow> bool" where
  "is_float_or_NA NA = True"
| "is_float_or_NA (PFloat x) = True"
| "is_float_or_NA v = False"

definition wf_column :: "column \<Rightarrow> bool" where
  "wf_column c =
     (if dtype c = Int64 then list_all is_int64 (cells c)
      else if dtype c = Float64 then list_all is_float_or_NA (cells c)
      else True)"

text \<open>\<^verbatim>\<open>df['confidence_interval_width'] = df['high_confidence_limit'] - df['low_confidence_limit']\<close>,
  when both columns are there.\<close>

definition add_confidence_interval_width :: "frame \<Rightarrow> frame" where
  "add_confidence_interval_width f =
     (case (map_of (columns f) ''low_confidence_limit'', map_of (columns f) ''high_confidence_limit'') of
        (Some lo, Some hi) \<Rightarrow> set_column ''confidence_interval_width'' (col_sub hi lo) f
      | _ \<Rightarrow> f)"

definition clean_nutrition ::
  "bool \<Rightarrow> nat \<Rightarrow> (pyval \<Rightarrow> string) \<Rightarrow> (string \<Rightarrow> pyval) \<Rightarrow> frame \<Rightarrow> frame" where
  "clean_nutrition cow now ostr parse nutrition_df =
     add_bookkeeping now
       (add_confidence_interval_width
          (add_year_range ostr
             (map_columns (fill_missing cow)
                (coerce_columns parse year_cols
                   (coerce_columns parse numeric_cols
                      (drop_internal nutrition_df))))))"

text \<open>\<^verbatim>\<open>df.to_dict('records')\<close>: one document per row.\<close>

definition to_records :: "frame \<Rightarrow> doc list" where
  "to_records f = map (\<lambda>i. map (\<lambda>(n, c). (n, cells c ! i)) (columns f)) [0..<nrows f]"

text \<open>How a script ends: it runs off its last line, \<^verbatim>\<open>exit(code)\<close> raises
  \<^verbatim>\<open>SystemExit(code)\<close>, or an exception reaches the top. The interpreter turns
  \<^verbatim>\<open>SystemExit(None)\<close> into status 0 and an uncaught exception into status 1.\<close>

datatype outcome = Completed | SystemExit "int option" | Uncaught exn

definition py_exit :: "int option \<Rightarrow> outcome" where
  "py_exit code = SystemExit code"

fun exit_status :: "outcome \<Rightarrow> int" where
  "exit_status Completed = 0"
| "exit_status (SystemExit None) = 0"
| "exit_status (SystemExit (Some n)) = n"
| "exit_status (Uncaught e) = 1"

text \<open>Stage 2 after the connectivity check. Nothing here is inside a \<^verbatim>\<open>try\<close>, so an
  exception of \<^verbatim>\<open>insert_many\<close> (an empty table, a record the driver cannot encode)
  ends the script.\<close>

definition cleaning ::
  "(doc list \<Rightarrow> frame) \<Rightarrow> (doc \<Rightarrow> bool) \<Rightarrow> bool \<Rightarrow> nat \<Rightarrow> (pyval \<Rightarrow> string) \<Rightarrow> (string \<Rightarrow> pyval)
     \<Rightarrow> db \<Rightarrow> message list \<times> db \<times> outcome" where
  "cleaning mk_frame enc cow now ostr parse d =
     (let ev_df = mk_frame (find_non_metadata (coll d ''ev_data_raw''));
          ev_df_clean = clean_ev cow now ostr parse ev_df;
          d1 = delete_many_all ''ev_data_cleaned'' d
      in case insert_many enc ''ev_data_cleaned'' (to_records ev_df_clean) d1 of
           Inl e \<Rightarrow> ([], d1, Uncaught e)
         | Inr d2 \<Rightarrow>
             (let nutrition_df = mk_frame (find_non_metadata (coll d2 ''nutrition_data_raw''));
                  nutrition_df_clean = clean_nutrition cow now ostr parse nutrition_df;
                  d3 = delete_many_all ''nutrition_data_cleaned'' d2
              in case insert_many enc ''nutrition_data_cleaned'' (to_records nutrition_df_clean) d3 of
                   Inl e \<Rightarrow> ([RecordsInserted ''ev_data_cleaned'' (nrows ev_df_clean)], d3, Uncaught e)
                 | Inr d4 \<Rightarrow>
                     ([RecordsInserted ''ev_data_cleaned'' (nrows ev_df_clean),
                       RecordsInserted ''nutrition_data_cleaned'' (nrows nutrition_df_clean)]
                        @ map (\<lambda>(n, k). CollectionCount n k) (collection_summary d4),
                      d4, Completed)))"

section \<open>The connectivity check of the four stages\<close>

text \<open>
  Every script starts with
  \<^verbatim>\<open>try: client.admin.command('ping')\<close>
  \<^verbatim>\<open>except Exception as e: print(f"Connection failed: {e}"); exit()\<close>.
  \<open>ping\<close> is the exception the command raised, if any. Stages 3 and 4 only read the
  store and draw charts; what they do after the check is a parameter.
\<close>

definition ingestion_main ::
  "exn option \<Rightarrow> (doc \<Rightarrow> bool) \<Rightarrow> nat \<Rightarrow> nat list \<Rightarrow> ev_json response \<Rightarrow> doc list response \<Rightarrow> db
     \<Rightarrow> message list \<times> db \<times> outcome" where
  "ingestion_main ping enc now perm ev_resp nut_resp d =
     (case ping of
        Some e \<Rightarrow> ([ConnectionFailed e], d, py_exit None)
      | None \<Rightarrow>
          (let (log, d') = ingestion enc now perm ev_resp nut_resp d in (log, d', Completed)))"

definition cleaning_main ::
  "exn option \<Rightarrow> (doc list \<Rightarrow> frame) \<Rightarrow> (doc \<Rightarrow> bool) \<Rightarrow> bool \<Rightarrow> nat \<Rightarrow> (pyval \<Rightarrow> string)
     \<Rightarrow> (string \<Rightarrow> pyval) \<Rightarrow> db \<Rightarrow> message list \<times> db \<times> outcome" where
  "cleaning_main ping mk_frame enc cow now ostr parse d =
     (case ping of
        Some e \<Rightarrow> ([ConnectionFailed e], d, py_exit None)
      | None \<Rightarrow> cleaning mk_frame enc cow now ostr parse d)"

definition analysis_main ::
  "exn option \<Rightarrow> (db \<Rightarrow> message list \<times> outcome) \<Rightarrow> db \<Rightarrow> message list \<times> db \<times> outcome" where
  "analysis_main ping analysis d =
     (case ping of
        Some e \<Rightarrow> ([ConnectionFailed e], d, py_exit None)
      | None \<Rightarrow> (fst (analysis d), d, snd (analysis d)))"

definition visualizations_main ::
  "exn option \<Rightarrow> (db \<Rightarrow> message list \<times> outcome) \<Rightarrow> db \<Rightarrow> message list \<times> db \<times> outcome" where
  "visualizations_main ping charts d =
     (case ping of
        Some e \<Rightarrow> ([ConnectionFailed e], d, py_exit None)
      | None \<Rightarrow> (fst (charts d), d, snd (charts d)))"

section \<open>A parser of plain decimal literals\<close>

text \<open>
  The theorems below hold for every parser. Where a concrete one is needed to run the
  stage on an example, this one reads an optional sign, digits and an optional
  fraction, as pandas does; it answers \<open>NA\<close> for everything else (pandas also reads
  exponents, surrounding blanks and the words for infinity and \<^verbatim>\<open>NaN\<close>, which no
  example below uses).
\<close>

definition digit_value :: "char \<Rightarrow> nat" where
  "digit_value c = of_char c - 48"

definition nat_of_digits :: "string \<Rightarrow> nat" where
  "nat_of_digits s = foldl (\<lambda>n c. 10 * n + digit_value c) 0 s"

definition parse_unsigned :: "string \<Rightarrow> pyval" where
  "parse_unsigned s =
     (let ip = takeWhile is_digit s; rest = dropWhile is_digit s
      in if rest = [] then (if ip = [] then NA else PInt (int (nat_of_digits ip)))
         else if hd rest = CHR ''.'' \<and> list_all is_digit (tl rest) \<and> (ip @ tl rest \<noteq> [])
         then PFloat (real (nat_of_digits ip) + real (nat_of_digits (tl rest)) / 10 ^ length (tl rest))
         else NA)"

fun negate :: "pyval \<Rightarrow> pyval" where
  "negate (PInt i) = PInt (- i)"
| "negate (PFloat x) = PFloat (- x)"
| "negate v = v"

definition parse_decimal :: "string \<Rightarrow> pyval" where
  "parse_decimal s =
     (case s of
        [] \<Rightarrow> NA
      | c # t \<Rightarrow> if c = CHR ''-'' then negate (parse_unsigned t)
                 else if c = CHR ''+'' then parse_unsigned t
                 else parse_unsigned s)"

section \<open>The type-inference rule in the specification's words\<close>

text \<open>
  The specification words the rule of the conversion loop as: a column is numeric when
  the string form of its first non-missing value, after stripping every \<^verbatim>\<open>.\<close> and
  \<^verbatim>\<open>-\<close>, is all-digit (a digit string, so not empty). This is that sentence, to be
  compared with \<open>looks_numeric\<close> on \<open>sample_val\<close>, which follow the code.
\<close>

definition first_non_missing :: "pyval list \<Rightarrow> pyval option" where
  "first_non_missing xs = find (\<lambda>v. v \<noteq> NA) xs"

definition spec_numeric_test :: "(pyval \<Rightarrow> string) \<Rightarrow> pyval list \<Rightarrow> bool" where
  "spec_numeric_test ostr xs =
     (case first_non_missing xs of
        None \<Rightarrow> False
      | Some v \<Rightarrow>
          (let s = filter (\<lambda>ch. ch \<notin> {CHR ''.'', CHR ''-''}) (py_str ostr v)
           in s \<noteq> [] \<and> list_all is_digit s))"

text \<open>A Python \<^verbatim>\<open>int\<close>, \<^verbatim>\<open>float\<close>, \<^verbatim>\<open>str\<close> or \<^verbatim>\<open>bool\<close>.\<close>

fun is_scalar :: "pyval \<Rightarrow> bool" where
  "is_scalar (PInt i) = True"
| "is_scalar (PFloat x) = True"
| "is_scalar (PStr s) = True"
| "is_scalar (PBool b) = True"
| "is_scalar v = False"


section \<open>Properties\<close>

lemma digits_of_nonempty: "digits_of n \<noteq> []"
  by (subst digits_of.simps) simp

subsection \<open>Columns of the cleaned tables\<close>

lemma nrows_set_column [simp]: "nrows (set_column n c f) = nrows f"
  by (simp add: set_column_def)

lemma nrows_map_columns [simp]: "nrows (map_columns g f) = nrows f"
  by (simp add: map_columns_def)

lemma nrows_drop_internal [simp]: "nrows (drop_internal f) = nrows f"
  by (simp add: drop_internal_def drop_columns_def)

lemma nrows_add_bookkeeping [simp]: "nrows (add_bookkeeping now f) = nrows f"
  by (simp add: add_bookkeeping_def)

lemma nrows_coerce_column [simp]: "nrows (coerce_column parse col f) = nrows f"
  by (simp add: coerce_column_def split: option.splits)

lemma nrows_coerce_columns [simp]: "nrows (coerce_columns parse cols f) = nrows f"
  unfolding coerce_columns_def by (induction cols arbitrary: f) simp_all

lemma nrows_add_year_range [simp]: "nrows (add_year_range ostr f) = nrows f"
  by (simp add: add_year_range_def split: option.splits)

lemma nrows_add_width [simp]: "nrows (add_confidence_interval_width f) = nrows f"
  by (simp add: add_confidence_interval_width_def split: option.splits)

lemma nrows_clean_ev [simp]: "nrows (clean_ev cow now ostr parse f) = nrows f"
  by (simp add: clean_ev_def)

lemma nrows_clean_nutrition [simp]: "nrows (clean_nutrition cow now ostr parse f) = nrows f"
  by (simp add: clean_nutrition_def)

lemma col_set_column: "map_of (columns (set_column n c f)) k = (if k = n then Some c else map_of (columns f) k)"
  by (simp add: set_column_def update_conv')

lemma col_map_columns: "map_of (columns (map_columns g f)) k = map_option g (map_of (columns f) k)"
  by (simp add: map_columns_def map_of_map)

lemma map_of_filter_keys:
  "map_of (filter (\<lambda>(n, c). P n) xs) k = (if P k then map_of xs k else None)"
  by (induction xs) auto

lemma col_drop_columns:
  "map_of (columns (drop_columns ns f)) k = (if k \<in> set ns then None else map_of (columns f) k)"
  by (simp add: drop_columns_def map_of_filter_keys)

lemma col_drop_internal:
  "map_of (columns (drop_internal f)) k = (if k \<in> set columns_to_drop then None else map_of (columns f) k)"
  by (auto simp add: drop_internal_def col_drop_columns map_of_eq_None_iff)

lemma record_id_add_bookkeeping:
  "map_of (columns (add_bookkeeping now f)) ''_record_id'' =
     Some \<lparr>dtype = Int64, cells = map (\<lambda>i. PInt (int i)) [1..<nrows f + 1]\<rparr>"
  by (simp add: add_bookkeeping_def col_set_column)

lemma record_of_column:
  assumes "map_of (columns g) k = Some c"
  shows "map (\<lambda>r. map_of r k) (to_records g) = map (\<lambda>i. Some (cells c ! i)) [0..<nrows g]"
  using assms by (simp add: to_records_def map_of_map)

lemma record_ids_of_records:
  "map (\<lambda>r. map_of r ''_record_id'') (to_records (add_bookkeeping now f))
     = map (\<lambda>i. Some (PInt (int i))) [1..<nrows f + 1]"
proof -
  have "map (\<lambda>r. map_of r ''_record_id'') (to_records (add_bookkeeping now f))
      = map (\<lambda>i. Some (map (\<lambda>i. PInt (int i)) [1..<nrows f + 1] ! i)) [0..<nrows f]"
    using record_of_column [OF record_id_add_bookkeeping, of now f] by simp
  also have "\<dots> = map (\<lambda>i. Some (PInt (int (Suc i)))) [0..<nrows f]"
    by (rule map_cong) (auto simp del: upt_Suc)
  also have "\<dots> = map (\<lambda>i. Some (PInt (int i))) (map Suc [0..<nrows f])"
    by (simp add: comp_def)
  also have "map Suc [0..<nrows f] = [1..<nrows f + 1]"
    by (simp add: map_Suc_upt del: upt_Suc)
  finally show ?thesis .
qed

text \<open>
  C5. Within one cleaning run the \<^verbatim>\<open>_record_id\<close> of the records of each cleaned
  collection, read in row order, is the sequence 1, 2, ..., N, where N is the number of
  rows of the table: no gap, no duplicate. This holds for the EV and for the nutrition
  table alike, whatever the columns hold.
\<close>

theorem record_id_dense:
  "map (\<lambda>r. map_of r ''_record_id'') (to_records (clean_ev cow now ostr parse ev_df))
     = map (\<lambda>i. Some (PInt (int i))) [1..<nrows ev_df + 1]
   \<and> length (to_records (clean_ev cow now ostr parse ev_df)) = nrows ev_df
   \<and> map (\<lambda>r. map_of r ''_record_id'') (to_records (clean_nutrition cow now ostr parse nutrition_df))
     = map (\<lambda>i. Some (PInt (int i))) [1..<nrows nutrition_df + 1]
   \<and> length (to_records (clean_nutrition cow now ostr parse nutrition_df)) = nrows nutrition_df"
proof -
  have ev: "clean_ev cow now ostr parse ev_df = add_bookkeeping now
       (map_columns (fill_missing cow) (map_columns (ev_convert ostr parse) (drop_internal ev_df)))"
    by (simp add: clean_ev_def)
  have nu: "clean_nutrition cow now ostr parse nutrition_df = add_bookkeeping now
       (add_confidence_interval_width (add_year_range ostr (map_columns (fill_missing cow)
          (coerce_columns parse year_cols (coerce_columns parse numeric_cols
             (drop_internal nutrition_df))))))"
    by (simp add: clean_nutrition_def)
  have len: "length (to_records g) = nrows g" for g
    by (simp add: to_records_def)
  show ?thesis
    unfolding ev nu by (simp only: record_ids_of_records len nrows_add_bookkeeping
      nrows_map_columns nrows_drop_internal nrows_add_width nrows_add_year_range
      nrows_coerce_columns simp_thms)
qed

subsection \<open>The store\<close>

lemma coll_update: "coll (AList.update n c d) k = (if k = n then c else coll d k)"
  by (simp add: coll_def update_conv')

lemma coll_delete_many_all: "coll (delete_many_all n d) k = (if k = n then [] else coll d k)"
  by (cases "map_of d n") (auto simp add: delete_many_all_def coll_def update_conv')

lemma raw_collections_differ: "EV_RAW_COLLECTION \<noteq> NUTRITION_RAW_COLLECTION"
  by (simp add: EV_RAW_COLLECTION_def NUTRITION_RAW_COLLECTION_def)

subsection \<open>Sampling never raises\<close>

lemma sample_rows_Inr: "sample_rows perm rows = Inr (sampled_rows perm rows)"
  by (simp add: sample_rows_def sampled_rows_def random_sample_def)

lemma sampled_rows_small: "length rows \<le> SAMPLE_SIZE \<Longrightarrow> sampled_rows perm rows = rows"
  by (simp add: sample_rows_def sampled_rows_def)

lemma sampled_rows_large:
  "SAMPLE_SIZE < length rows \<Longrightarrow>
   sampled_rows perm rows = map (\<lambda>i. rows ! i) (take SAMPLE_SIZE perm)"
  by (simp add: sample_rows_def sampled_rows_def random_sample_def)

subsection \<open>The two ingestion blocks\<close>

lemma ev_try_Raised: "ev_try enc now perm (Raised e) d = (Inl e, d)"
  by (simp add: ev_try_def)

text \<open>The EV block on a decoded body, case by case: the metadata document cannot be
  encoded; there is no row, or a row cannot be encoded; everything is stored.\<close>

lemma ev_try_Body:
  "ev_try enc now perm (Body j) d =
     (let names = column_names_of (columns_meta j);
          meta = ev_metadata_doc now j names;
          d1 = delete_many_all EV_RAW_COLLECTION d;
          d2 = AList.update EV_RAW_COLLECTION (coll d1 EV_RAW_COLLECTION @ [meta]) d1;
          docs = map (ev_document now names) (sampled_rows perm (data j))
      in if \<not> enc meta then (Inl EncodeError, d1)
         else if docs = [] then (Inl TypeError, d2)
         else if \<not> list_all enc docs then (Inl EncodeError, d2)
         else (Inr (length docs), AList.update EV_RAW_COLLECTION (coll d2 EV_RAW_COLLECTION @ docs) d2))"
  by (simp add: ev_try_def Let_def insert_one_def insert_many_def sample_rows_Inr)

lemma ev_try_other: "k \<noteq> EV_RAW_COLLECTION \<Longrightarrow> coll (snd (ev_try enc now perm r d)) k = coll d k"
  by (cases r) (simp_all add: ev_try_Raised ev_try_Body Let_def coll_update coll_delete_many_all)

lemma snd_ev_block: "snd (ev_block enc now perm r d) = snd (ev_try enc now perm r d)"
  by (simp add: ev_block_def split: prod.splits sum.splits)

lemma ev_block_other:
  "k \<noteq> EV_RAW_COLLECTION \<Longrightarrow> coll (snd (ev_block enc now perm r d)) k = coll d k"
  by (simp add: snd_ev_block ev_try_other)

lemma ev_block_coll:
  "coll (snd (ev_block enc now perm (Body j) d)) EV_RAW_COLLECTION =
     (let names = column_names_of (columns_meta j);
          meta = ev_metadata_doc now j names;
          docs = map (ev_document now names) (sampled_rows perm (data j))
      in if \<not> enc meta then []
         else if list_all enc docs then meta # docs
         else [meta])"
  by (simp add: snd_ev_block ev_try_Body Let_def coll_update coll_delete_many_all)

lemma ev_block_log:
  "fst (ev_block enc now perm (Body j) d) =
     (let names = column_names_of (columns_meta j);
          docs = map (ev_document now names) (sampled_rows perm (data j))
      in if \<not> enc (ev_metadata_doc now j names) then [ProcessingError ''EV'' EncodeError]
         else if docs = [] then [ProcessingError ''EV'' TypeError]
         else if \<not> list_all enc docs then [ProcessingError ''EV'' EncodeError]
         else [RecordsInserted EV_RAW_COLLECTION (length docs)])"
  by (simp add: ev_block_def ev_try_Body Let_def handle_exn_def)

lemma ev_block_Raised: "ev_block enc now perm (Raised e) d = ([handle_exn ''EV'' e], d)"
  by (simp add: ev_block_def ev_try_Raised)

lemma nutrition_try_Raised: "nutrition_try enc now (Raised e) d = (Inl e, d)"
  by (simp add: nutrition_try_def)

lemma nutrition_try_Body:
  "nutrition_try enc now (Body recs) d =
     (let d1 = delete_many_all NUTRITION_RAW_COLLECTION d;
          docs = map (nutrition_record now) recs;
          d2 = AList.update NUTRITION_RAW_COLLECTION (coll d1 NUTRITION_RAW_COLLECTION @ docs) d1;
          meta = nutrition_metadata_doc now recs
      in if docs = [] then (Inl TypeError, d1)
         else if \<not> list_all enc docs then (Inl EncodeError, d1)
         else if \<not> enc meta then (Inl EncodeError, d2)
         else (Inr (length docs),
               AList.update NUTRITION_RAW_COLLECTION (coll d2 NUTRITION_RAW_COLLECTION @ [meta]) d2))"
  by (simp add: nutrition_try_def Let_def insert_many_def insert_one_def)

lemma nutrition_block_Raised:
  "nutrition_block enc now (Raised e) d = ([handle_exn ''Nutrition'' e], d)"
  by (simp add: nutrition_block_def nutrition_try_Raised)

lemma nutrition_block_other:
  "k \<noteq> NUTRITION_RAW_COLLECTION \<Longrightarrow> coll (snd (nutrition_block enc now r d)) k = coll d k"
  by (cases r) (simp_all add: nutrition_block_def nutrition_try_Raised nutrition_try_Body Let_def
      coll_update coll_delete_many_all)

lemma nutrition_block_coll:
  "coll (snd (nutrition_block enc now (Body recs) d)) NUTRITION_RAW_COLLECTION =
     (let docs = map (nutrition_record now) recs
      in if list_all enc docs
         then (if docs \<noteq> [] \<and> enc (nutrition_metadata_doc now recs)
               then docs @ [nutrition_metadata_doc now recs] else docs)
         else [])"
  by (auto simp add: nutrition_block_def nutrition_try_Body Let_def coll_update coll_delete_many_all)

lemma nutrition_block_log:
  "fst (nutrition_block enc now r d) =
     (case r of Raised e \<Rightarrow> [handle_exn ''Nutrition'' e]
      | Body recs \<Rightarrow>
          if recs = [] then [ProcessingError ''Nutrition'' TypeError]
          else if list_all enc (map (nutrition_record now) recs)
                  \<and> enc (nutrition_metadata_doc now recs)
          then [RecordsInserted NUTRITION_RAW_COLLECTION (length recs)]
          else [ProcessingError ''Nutrition'' EncodeError])"
  by (cases r) (auto simp add: nutrition_block_def nutrition_try_Raised nutrition_try_Body Let_def
      handle_exn_def)

lemma nutrition_block_same_collection:
  "coll d NUTRITION_RAW_COLLECTION = coll d' NUTRITION_RAW_COLLECTION \<Longrightarrow>
   coll (snd (nutrition_block enc now r d)) NUTRITION_RAW_COLLECTION
     = coll (snd (nutrition_block enc now r d')) NUTRITION_RAW_COLLECTION"
  by (cases r) (simp_all add: nutrition_block_Raised nutrition_block_coll)

lemma ingestion_unfold:
  "ingestion enc now perm ev_resp nut_resp d =
     (fst (ev_block enc now perm ev_resp d)
        @ fst (nutrition_block enc now nut_resp (snd (ev_block enc now perm ev_resp d)))
        @ map (\<lambda>(n, k). CollectionCount n k)
            (collection_summary
               (snd (nutrition_block enc now nut_resp (snd (ev_block enc now perm ev_resp d))))),
      snd (nutrition_block enc now nut_resp (snd (ev_block enc now perm ev_resp d))))"
  by (simp add: ingestion_def split: prod.splits)

text \<open>
  C7. A failure inside one dataset's block is caught and logged and does not stop the
  other block. An exception raised by the download (\<open>Raised e\<close>) leaves the store as it
  was and logs one message. Whatever the EV block met (a failed download, an
  undecodable body, an empty table, a document the driver cannot encode), the
  nutrition collection ends as the nutrition
  block alone would leave it, and whatever the nutrition block met, the EV collection
  ends as the EV block left it; the log holds the message of the EV block followed by
  the message of the nutrition block.
\<close>

theorem ingestion_blocks_independent:
  "ev_block enc now perm (Raised e) d = ([handle_exn ''EV'' e], d)
   \<and> nutrition_block enc now (Raised e) d = ([handle_exn ''Nutrition'' e], d)
   \<and> coll (snd (ingestion enc now perm ev_resp nut_resp d)) NUTRITION_RAW_COLLECTION
       = coll (snd (nutrition_block enc now nut_resp d)) NUTRITION_RAW_COLLECTION
   \<and> coll (snd (ingestion enc now perm ev_resp nut_resp d)) EV_RAW_COLLECTION
       = coll (snd (ev_block enc now perm ev_resp d)) EV_RAW_COLLECTION
   \<and> take 2 (fst (ingestion enc now perm ev_resp nut_resp d))
       = fst (ev_block enc now perm ev_resp d) @ fst (nutrition_block enc now nut_resp d)"
proof -
  have "coll (snd (ev_block enc now perm ev_resp d)) NUTRITION_RAW_COLLECTION
      = coll d NUTRITION_RAW_COLLECTION"
    using raw_collections_differ by (simp add: ev_block_other)
  then have nut: "coll (snd (nutrition_block enc now nut_resp (snd (ev_block enc now perm ev_resp d))))
        NUTRITION_RAW_COLLECTION = coll (snd (nutrition_block enc now nut_resp d)) NUTRITION_RAW_COLLECTION"
    by (rule nutrition_block_same_collection)
  have ev: "coll (snd (nutrition_block enc now nut_resp (snd (ev_block enc now perm ev_resp d))))
        EV_RAW_COLLECTION = coll (snd (ev_block enc now perm ev_resp d)) EV_RAW_COLLECTION"
    using raw_collections_differ by (simp add: nutrition_block_other)
  have log2: "fst (nutrition_block enc now nut_resp d') = fst (nutrition_block enc now nut_resp d)" for d'
    by (simp add: nutrition_block_log)
  have len1: "length (fst (ev_block enc now perm ev_resp d)) = 1"
    by (cases ev_resp) (simp_all add: ev_block_Raised ev_block_log Let_def)
  have len2: "length (fst (nutrition_block enc now nut_resp d)) = 1"
    by (cases nut_resp) (simp_all add: nutrition_block_log)
  have "take 2 (fst (ingestion enc now perm ev_resp nut_resp d))
       = fst (ev_block enc now perm ev_resp d) @ fst (nutrition_block enc now nut_resp d)"
    unfolding ingestion_unfold fst_conv log2 [of "snd (ev_block enc now perm ev_resp d)"]
    using len1 len2 by simp
  then show ?thesis
    by (simp add: ev_block_Raised nutrition_block_Raised ingestion_unfold nut ev)
qed


theorem ingestion_blocks_independent_witness:
  "fst (ingestion int64_doc 0 [] (Raised RequestException) (Body [[(''yearstart'', PStr ''2011'')]]) [])
     = [DownloadError ''EV'' RequestException, RecordsInserted NUTRITION_RAW_COLLECTION 1,
        CollectionCount NUTRITION_RAW_COLLECTION 2]
   \<and> coll (snd (ingestion int64_doc 0 [] (Raised RequestException)
          (Body [[(''yearstart'', PStr ''2011'')]]) []))
        NUTRITION_RAW_COLLECTION
     = [nutrition_record 0 [(''yearstart'', PStr ''2011'')],
        nutrition_metadata_doc 0 [[(''yearstart'', PStr ''2011'')]]]"
proof -
  have e: "int64_doc (nutrition_record 0 [(''yearstart'', PStr ''2011'')])"
    "int64_doc (nutrition_metadata_doc 0 [[(''yearstart'', PStr ''2011'')]])"
    by (simp_all add: int64_doc_def nutrition_record_def nutrition_metadata_doc_def in_int64_def)
  have c: "coll (snd (nutrition_block int64_doc 0 (Body [[(''yearstart'', PStr ''2011'')]]) []))
        NUTRITION_RAW_COLLECTION
     = [nutrition_record 0 [(''yearstart'', PStr ''2011'')],
        nutrition_metadata_doc 0 [[(''yearstart'', PStr ''2011'')]]]"
    using e by (simp add: nutrition_block_coll)
  have "collection_summary (snd (nutrition_block int64_doc 0 (Body [[(''yearstart'', PStr ''2011'')]]) []))
      = [(NUTRITION_RAW_COLLECTION, 2)]"
    using e by (simp add: nutrition_block_def nutrition_try_Body Let_def collection_summary_def
        list_collection_names_def count_documents_all_def delete_many_all_def coll_def)
  then show ?thesis
    using ingestion_blocks_independent [where enc = int64_doc and now = 0 and perm = "[]"
        and e = RequestException and d = "[]" and ev_resp = "Raised RequestException"
        and nut_resp = "Body [[(''yearstart'', PStr ''2011'')]]"] e c
    by (simp add: ingestion_unfold ev_block_Raised nutrition_block_log handle_exn_def)
qed

subsection \<open>Sampling\<close>

lemma card_distinct_lists: 
  assumes "finite B"
  shows "card {q. distinct q \<and> set q = B} = fact (card B)"
proof -
  have "{q. distinct q \<and> set q = B} = {xs. length xs = card B \<and> distinct xs \<and> set xs \<subseteq> B}"
  proof (intro set_eqI iffI)
    fix q assume "q \<in> {q. distinct q \<and> set q = B}"
    then show "q \<in> {xs. length xs = card B \<and> distinct xs \<and> set xs \<subseteq> B}"
      by (auto simp add: distinct_card)
  next
    fix xs assume "xs \<in> {xs. length xs = card B \<and> distinct xs \<and> set xs \<subseteq> B}"
    then have a: "length xs = card B" "distinct xs" "set xs \<subseteq> B" by simp_all
    then have "card (set xs) = card B" by (simp add: distinct_card)
    with a(3) assms have "set xs = B" by (simp add: card_subset_eq)
    with a(2) show "xs \<in> {q. distinct q \<and> set q = B}" by simp
  qed
  also have "card \<dots> = \<Prod>{card B - card B + 1 .. card B}"
    using assms by (intro card_lists_distinct_length_eq) simp_all
  also have "\<dots> = fact (card B)"
    by (simp add: fact_prod)
  finally show ?thesis .
qed

text \<open>Every selection of \<open>k\<close> distinct positions is the head of the same number of
  shuffles.\<close>

lemma shuffles_with_head:
  assumes "length t = k" "distinct t" "set t \<subseteq> {..<n}"
  shows "card {perm. shuffle_of n perm \<and> take k perm = t} = fact (n - k)"
proof -
  let ?B = "{..<n} - set t"
  have kn: "k \<le> n"
    using assms card_mono [of "{..<n}" "set t"] by (simp add: distinct_card)
  have "{perm. shuffle_of n perm \<and> take k perm = t} = (\<lambda>q. t @ q) ` {q. distinct q \<and> set q = ?B}"
  proof (intro set_eqI iffI)
    fix p assume "p \<in> {perm. shuffle_of n perm \<and> take k perm = t}"
    then have p: "distinct p" "set p = {..<n}" "take k p = t"
      by (simp_all add: shuffle_of_def)
    have split: "p = t @ drop k p"
      using p(3) append_take_drop_id [of k p] by simp
    with p(1) have d: "distinct (drop k p)" "set t \<inter> set (drop k p) = {}"
      by (metis distinct_append)+
    from split p(2) have "set t \<union> set (drop k p) = {..<n}"
      by (metis set_append)
    with d(2) have "set (drop k p) = ?B" by auto
    with d(1) split show "p \<in> (\<lambda>q. t @ q) ` {q. distinct q \<and> set q = ?B}"
      by blast
  next
    fix p assume "p \<in> (\<lambda>q. t @ q) ` {q. distinct q \<and> set q = ?B}"
    then obtain q where q: "p = t @ q" "distinct q" "set q = ?B" by auto
    with assms show "p \<in> {perm. shuffle_of n perm \<and> take k perm = t}"
      by (auto simp add: shuffle_of_def)
  qed
  moreover have "inj_on (\<lambda>q. t @ q) {q. distinct q \<and> set q = ?B}"
    by (simp add: inj_on_def)
  ultimately have "card {perm. shuffle_of n perm \<and> take k perm = t}
      = card {q. distinct q \<and> set q = ?B}"
    by (simp add: card_image)
  also have "\<dots> = fact (card ?B)"
    by (intro card_distinct_lists) simp
  also have "card ?B = n - k"
    using assms by (simp add: card_Diff_subset distinct_card)
  finally show ?thesis .
qed

lemma shuffle_take:
  assumes "shuffle_of n perm" "k \<le> n"
  shows "length (take k perm) = k" "distinct (take k perm)" "\<forall>i \<in> set (take k perm). i < n"
proof -
  from assms(1) have p: "distinct perm" "set perm = {..<n}"
    by (simp_all add: shuffle_of_def)
  then have "length perm = n"
    using distinct_card [of perm] by simp
  with assms(2) show "length (take k perm) = k" by simp
  from p(1) show "distinct (take k perm)" by simp
  from p(2) show "\<forall>i \<in> set (take k perm). i < n"
    by (auto dest: in_set_takeD)
qed

text \<open>
  C6 (amended). If the EV source has at least one and at most \<open>SAMPLE_SIZE\<close> = 2500
  rows, and the driver can encode the metadata document and the document of every
  row, the block logs no error and the collection holds the metadata document followed
  by one document per source row, in source order. If it has more than 2500 rows (and
  the driver can encode the documents), the collection holds the metadata document
  followed by exactly 2500 documents: those of the rows at the first 2500 positions
  of the generator's shuffle, which are distinct positions of the source. The draw is
  uniform: every selection of 2500 distinct positions is the outcome of the same
  number of shuffles, \<open>(n - 2500)!\<close>, so a generator that draws its shuffle uniformly
  draws every selection with the same probability. (With no row at all, or with a
  row the driver cannot encode, \<^verbatim>\<open>insert_many\<close> raises and the block logs an error.)
\<close>

theorem ev_sampling:
  "(data j \<noteq> [] \<and> length (data j) \<le> SAMPLE_SIZE
      \<and> enc (ev_metadata_doc now j (column_names_of (columns_meta j)))
      \<and> list_all enc (map (ev_document now (column_names_of (columns_meta j))) (data j)) \<longrightarrow>
      fst (ev_block enc now perm (Body j) d) = [RecordsInserted EV_RAW_COLLECTION (length (data j))]
      \<and> coll (snd (ev_block enc now perm (Body j) d)) EV_RAW_COLLECTION
          = ev_metadata_doc now j (column_names_of (columns_meta j))
              # map (ev_document now (column_names_of (columns_meta j))) (data j))
   \<and> (SAMPLE_SIZE < length (data j) \<and> shuffle_of (length (data j)) perm
      \<and> enc (ev_metadata_doc now j (column_names_of (columns_meta j)))
      \<and> list_all enc (map (ev_document now (column_names_of (columns_meta j))) (data j)) \<longrightarrow>
      fst (ev_block enc now perm (Body j) d) = [RecordsInserted EV_RAW_COLLECTION 2500]
      \<and> coll (snd (ev_block enc now perm (Body j) d)) EV_RAW_COLLECTION
          = ev_metadata_doc now j (column_names_of (columns_meta j))
              # map (\<lambda>i. ev_document now (column_names_of (columns_meta j)) (data j ! i))
                  (take SAMPLE_SIZE perm)
      \<and> length (take SAMPLE_SIZE perm) = 2500 \<and> distinct (take SAMPLE_SIZE perm)
      \<and> (\<forall>i \<in> set (take SAMPLE_SIZE perm). i < length (data j)))
   \<and> (\<forall>t. length t = SAMPLE_SIZE \<and> distinct t \<and> set t \<subseteq> {..<n} \<longrightarrow>
        card {perm. shuffle_of n perm \<and> take SAMPLE_SIZE perm = t} = fact (n - SAMPLE_SIZE))"
proof (intro conjI impI allI)
  let ?ns = "column_names_of (columns_meta j)"
  assume a: "data j \<noteq> [] \<and> length (data j) \<le> SAMPLE_SIZE
      \<and> enc (ev_metadata_doc now j ?ns) \<and> list_all enc (map (ev_document now ?ns) (data j))"
  then have s: "sampled_rows perm (data j) = data j"
    by (simp add: sampled_rows_small)
  show "fst (ev_block enc now perm (Body j) d) = [RecordsInserted EV_RAW_COLLECTION (length (data j))]"
    using a by (simp add: ev_block_log s)
  show "coll (snd (ev_block enc now perm (Body j) d)) EV_RAW_COLLECTION
          = ev_metadata_doc now j ?ns # map (ev_document now ?ns) (data j)"
    using a by (simp add: ev_block_coll Let_def s)
next
  let ?ns = "column_names_of (columns_meta j)"
  assume b: "SAMPLE_SIZE < length (data j) \<and> shuffle_of (length (data j)) perm
      \<and> enc (ev_metadata_doc now j ?ns) \<and> list_all enc (map (ev_document now ?ns) (data j))"
  then have s: "sampled_rows perm (data j) = map (\<lambda>i. data j ! i) (take SAMPLE_SIZE perm)"
    by (simp add: sampled_rows_large)
  from b have p: "length (take SAMPLE_SIZE perm) = SAMPLE_SIZE" "distinct (take SAMPLE_SIZE perm)"
    "\<forall>i \<in> set (take SAMPLE_SIZE perm). i < length (data j)"
    using shuffle_take [of "length (data j)" perm SAMPLE_SIZE] by simp_all
  have k: "SAMPLE_SIZE = 2500" by (simp add: SAMPLE_SIZE_def)
  from p(1) k have ne: "take SAMPLE_SIZE perm \<noteq> []" by auto
  from b p(3) have e: "list_all enc (map (ev_document now ?ns) (sampled_rows perm (data j)))"
    by (auto simp add: s list_all_iff)
  show "fst (ev_block enc now perm (Body j) d) = [RecordsInserted EV_RAW_COLLECTION 2500]"
    using b e ne p(1) k unfolding ev_block_log Let_def by (simp add: s)
  show "coll (snd (ev_block enc now perm (Body j) d)) EV_RAW_COLLECTION
          = ev_metadata_doc now j ?ns
              # map (\<lambda>i. ev_document now ?ns (data j ! i)) (take SAMPLE_SIZE perm)"
    using b e unfolding ev_block_coll Let_def by (simp add: s comp_def)
  show "length (take SAMPLE_SIZE perm) = 2500" using p(1) k by simp
  show "distinct (take SAMPLE_SIZE perm)" by (rule p(2))
  show "\<forall>i \<in> set (take SAMPLE_SIZE perm). i < length (data j)" by (rule p(3))
next
  fix t :: "nat list"
  assume "length t = SAMPLE_SIZE \<and> distinct t \<and> set t \<subseteq> {..<n}"
  then show "card {perm. shuffle_of n perm \<and> take SAMPLE_SIZE perm = t} = fact (n - SAMPLE_SIZE)"
    by (intro shuffles_with_head) simp_all
qed

theorem ev_sampling_witness:
  "coll (snd (ev_block int64_doc 0 [] (Body \<lparr>columns_meta = [], data = [[PStr ''5YJ3E1EA7K'']]\<rparr>) []))
       EV_RAW_COLLECTION
     = [ev_metadata_doc 0 \<lparr>columns_meta = [], data = [[PStr ''5YJ3E1EA7K'']]\<rparr> [],
        ev_document 0 [] [PStr ''5YJ3E1EA7K'']]
   \<and> length (coll (snd (ev_block int64_doc 0 [0..<2501]
          (Body \<lparr>columns_meta = [], data = replicate 2501 []\<rparr>) []))
       EV_RAW_COLLECTION) = 2501
   \<and> card {perm. shuffle_of 2501 perm \<and> take SAMPLE_SIZE perm = [0..<2500]} = 1"
proof -
  let ?j = "\<lparr>columns_meta = [], data = [[PStr ''5YJ3E1EA7K'']]\<rparr>"
  let ?J = "\<lparr>columns_meta = [], data = replicate 2501 ([] :: pyval list)\<rparr>"
  have ns: "column_names_of [] = []"
    by (simp add: column_names_of_def enumerate_eq_zip)
  have m: "int64_doc (ev_metadata_doc 0 ?j [])" "int64_doc (ev_metadata_doc 0 ?J [])"
    by (simp_all add: int64_doc_def ev_metadata_doc_def in_int64_def SAMPLE_SIZE_def)
  have r: "int64_doc (ev_document 0 [] [PStr ''5YJ3E1EA7K''])" "int64_doc (ev_document 0 [] [])"
    by (simp_all add: int64_doc_def ev_document_def ev_internal_fields_def)
  have sh: "shuffle_of 2501 [0..<2501]"
    by (simp add: shuffle_of_def atLeast0LessThan)
  have t: "length [0..<2500] = SAMPLE_SIZE \<and> distinct [0..<2500] \<and> set [0..<2500] \<subseteq> {..<2501}"
    by (simp add: SAMPLE_SIZE_def atLeast0LessThan)
  note w = ev_sampling [where enc = int64_doc and now = 0 and d = "[]" and n = 2501]
  from w [where j = ?j and perm = "[]"] m(1) r(1)
  have 1: "coll (snd (ev_block int64_doc 0 [] (Body ?j) [])) EV_RAW_COLLECTION
     = [ev_metadata_doc 0 ?j [], ev_document 0 [] [PStr ''5YJ3E1EA7K'']]"
    by (simp add: SAMPLE_SIZE_def ns)
  from w [where j = ?J and perm = "[0..<2501]"] m(2) r(2) sh
  have 2: "length (coll (snd (ev_block int64_doc 0 [0..<2501] (Body ?J) [])) EV_RAW_COLLECTION) = 2501"
    by (simp add: SAMPLE_SIZE_def ns list_all_iff)
  from w [where j = ?j and perm = "[]"] t
  have 3: "card {perm. shuffle_of 2501 perm \<and> take SAMPLE_SIZE perm = [0..<2500]} = 1"
    by (simp add: SAMPLE_SIZE_def)
  from 1 2 3 show ?thesis by (simp only: simp_thms)
qed

theorem ev_sampling_counterexample:
  "length (data \<lparr>columns_meta = [], data = []\<rparr>) < SAMPLE_SIZE
   \<and> fst (ev_block int64_doc 0 [] (Body \<lparr>columns_meta = [], data = []\<rparr>) [])
       = [ProcessingError ''EV'' TypeError]
   \<and> length (data \<lparr>columns_meta = [\<lparr>name = Some ''Odometer'', other_fields = []\<rparr>],
                    data = [[PInt (2 ^ 63)]]\<rparr>) < SAMPLE_SIZE
   \<and> fst (ev_block int64_doc 0 []
        (Body \<lparr>columns_meta = [\<lparr>name = Some ''Odometer'', other_fields = []\<rparr>],
               data = [[PInt (2 ^ 63)]]\<rparr>) [])
       = [ProcessingError ''EV'' EncodeError]"
proof -
  have ns: "column_names_of [] = []"
    "column_names_of [\<lparr>name = Some ''Odometer'', other_fields = []\<rparr>] = [''Odometer'']"
    by (simp_all add: column_names_of_def enumerate_eq_zip)
  have m: "int64_doc (ev_metadata_doc 0 j ns)" if "list_all int64_only (map column_meta_doc (columns_meta j))"
      "length (data j) < 2 ^ 63" for j ns
    using that by (simp add: int64_doc_def ev_metadata_doc_def in_int64_def SAMPLE_SIZE_def
        list_all_iff)
  have d: "\<not> int64_doc (ev_document 0 [''Odometer''] [PInt (2 ^ 63)])"
    by (simp add: int64_doc_def ev_document_def ev_internal_fields_def in_int64_def)
  show ?thesis
    using d by (simp add: SAMPLE_SIZE_def ev_block_log Let_def sampled_rows_small ns m
        column_meta_doc_def)
qed

subsection \<open>The metadata document\<close>

lemma ev_metadata_flag: "map_of (ev_metadata_doc now j ns) ''is_metadata'' = Some (PBool True)"
  by (simp add: ev_metadata_doc_def)

lemma nutrition_metadata_flag: "map_of (nutrition_metadata_doc now recs) ''is_metadata'' = Some (PBool True)"
  by (simp add: nutrition_metadata_doc_def)

lemma find_non_metadata_flagged:
  "map_of x ''is_metadata'' = Some (PBool True) \<Longrightarrow>
   find_non_metadata (xs @ x # ys) = find_non_metadata xs @ find_non_metadata ys"
  by (simp add: find_non_metadata_def ne_true_def)

lemma find_non_metadata_unflagged:
  "\<forall>x \<in> set xs. map_of x ''is_metadata'' = None \<Longrightarrow> find_non_metadata xs = xs"
  by (simp add: find_non_metadata_def ne_true_def)

lemma find_non_metadata_not_true:
  "x \<in> set (find_non_metadata c) \<Longrightarrow> map_of x ''is_metadata'' \<noteq> Some (PBool True)"
  by (auto simp add: find_non_metadata_def ne_true_def)


subsection \<open>Building an EV document\<close>

lemma updates_Cons: "AList.updates (k # ks) (v # vs) d = AList.updates ks vs (AList.update k v d)"
  by (simp add: AList.updates_def)

lemma ev_fill_doc_updates: "ev_fill_doc ns idx row d = AList.updates (drop idx ns) row d"
proof (induction row arbitrary: idx d)
  case Nil
  show ?case by simp
next
  case (Cons v row)
  show ?case
  proof (cases "idx < length ns")
    case True
    then have "drop idx ns = ns ! idx # drop (Suc idx) ns"
      by (simp add: Cons_nth_drop_Suc)
    with True Cons show ?thesis by (simp add: updates_Cons)
  next
    case False
    with Cons show ?thesis by (simp add: AList.updates_def)
  qed
qed

lemma ev_document_updates: "ev_document now ns row = AList.updates ns row (ev_internal_fields now)"
  by (simp add: ev_document_def ev_fill_doc_updates)

lemma zip_take_length: "zip xs (take (length xs) ys) = zip xs ys"
proof (induction xs arbitrary: ys)
  case Nil
  show ?case by simp
next
  case (Cons x xs)
  then show ?case by (cases ys) simp_all
qed

lemma set_update_subset: "set (AList.update k v al) \<subseteq> insert (k, v) (set al)"
  by (induction al) auto

lemma set_updates_subset: "set (AList.updates ks vs al) \<subseteq> set (zip ks vs) \<union> set al"
proof (induction ks arbitrary: vs al)
  case Nil
  show ?case by (simp add: AList.updates_def)
next
  case (Cons k ks)
  show ?case
  proof (cases vs)
    case Nil
    then show ?thesis by simp
  next
    case (Cons v vs')
    have "set (AList.updates ks vs' (AList.update k v al))
        \<subseteq> set (zip ks vs') \<union> set (AList.update k v al)"
      by (rule Cons.IH)
    also have "\<dots> \<subseteq> set (zip ks vs') \<union> insert (k, v) (set al)"
      using set_update_subset [of k v al] by blast
    finally show ?thesis using Cons by (auto simp add: updates_Cons)
  qed
qed

lemma map_upds_distinct_nth:
  "distinct ks \<Longrightarrow> i < length ks \<Longrightarrow> i < length vs \<Longrightarrow> (m(ks [\<mapsto>] vs)) (ks ! i) = Some (vs ! i)"
proof (induction ks arbitrary: vs i m)
  case Nil
  then show ?case by simp
next
  case (Cons k ks)
  show ?case
  proof (cases vs)
    case Nil
    with Cons.prems show ?thesis by simp
  next
    case (Cons v vs')
    show ?thesis
    proof (cases i)
      case 0
      with Cons.prems Cons show ?thesis by simp
    next
      case (Suc i')
      have "(m(k # ks [\<mapsto>] v # vs')) (ks ! i') = ((m(k \<mapsto> v))(ks [\<mapsto>] vs')) (ks ! i')"
        by (simp only: map_upds_Cons)
      also have "\<dots> = Some (vs' ! i')"
        using Cons.prems Cons Suc by (intro Cons.IH) simp_all
      finally show ?thesis using Cons Suc by simp
    qed
  qed
qed

lemma ev_document_absent_key:
  "k \<notin> set ns \<Longrightarrow> map_of (ev_document now ns row) k = map_of (ev_internal_fields now) k"
  by (simp add: ev_document_updates updates_conv')

lemma keys_updates: "fst ` set al \<subseteq> fst ` set (AList.updates ks vs al)"
proof (induction ks arbitrary: vs al)
  case Nil
  show ?case by (simp add: AList.updates_def)
next
  case (Cons k ks)
  show ?case
  proof (cases vs)
    case Nil
    then show ?thesis by simp
  next
    case (Cons v vs')
    have "fst ` set al \<subseteq> fst ` set (AList.update k v al)"
      by (auto simp add: dom_update)
    also have "\<dots> \<subseteq> fst ` set (AList.updates ks vs' (AList.update k v al))"
      by (rule Cons.IH)
    finally show ?thesis using Cons by (simp add: updates_Cons)
  qed
qed

text \<open>
  C8. The document built for an EV row depends only on the first \<open>length column_names\<close>
  values of the row: the values at later positions are dropped. Every entry of the
  document is one of the three internal fields or pairs the name at some position
  \<open>i\<close>, below the number of names and the length of the row, with the row's value
  there; and when the names are distinct, each such position is found in the document
  under its name. The three internal keys are always among the keys of the document,
  and each keeps the value the script gave it unless a column bears its name.
\<close>

theorem ev_document_positions:
  "ev_document now column_names row = ev_document now column_names (take (length column_names) row)
   \<and> (\<forall>(k, v) \<in> set (ev_document now column_names row).
        (k, v) \<in> set (ev_internal_fields now)
        \<or> (\<exists>i. i < length column_names \<and> i < length row \<and> k = column_names ! i \<and> v = row ! i))
   \<and> (distinct column_names \<longrightarrow>
        (\<forall>i. i < length column_names \<and> i < length row \<longrightarrow>
           map_of (ev_document now column_names row) (column_names ! i) = Some (row ! i)))
   \<and> {''_imported_at'', ''_dataset_name'', ''_source''}
        \<subseteq> fst ` set (ev_document now column_names row)
   \<and> (''_imported_at'' \<notin> set column_names \<longrightarrow>
        map_of (ev_document now column_names row) ''_imported_at'' = Some (PDatetime now))
   \<and> (''_dataset_name'' \<notin> set column_names \<longrightarrow>
        map_of (ev_document now column_names row) ''_dataset_name''
          = Some (PStr ''Electric Vehicle Population Data''))
   \<and> (''_source'' \<notin> set column_names \<longrightarrow>
        map_of (ev_document now column_names row) ''_source'' = Some (PStr ''Washington State DOL''))"
proof (intro conjI)
  show "ev_document now column_names row = ev_document now column_names (take (length column_names) row)"
    by (simp add: ev_document_updates AList.updates_def zip_take_length)
  show "\<forall>(k, v) \<in> set (ev_document now column_names row).
        (k, v) \<in> set (ev_internal_fields now)
        \<or> (\<exists>i. i < length column_names \<and> i < length row \<and> k = column_names ! i \<and> v = row ! i)"
  proof (clarify)
    fix k v
    assume "(k, v) \<in> set (ev_document now column_names row)"
      and "\<not> (\<exists>i. i < length column_names \<and> i < length row \<and> k = column_names ! i \<and> v = row ! i)"
    then have "(k, v) \<notin> set (zip column_names row)"
      by (auto simp add: in_set_zip)
    with \<open>(k, v) \<in> set (ev_document now column_names row)\<close>
    show "(k, v) \<in> set (ev_internal_fields now)"
      using set_updates_subset [of column_names row "ev_internal_fields now"]
      by (auto simp add: ev_document_updates)
  qed
  show "distinct column_names \<longrightarrow>
        (\<forall>i. i < length column_names \<and> i < length row \<longrightarrow>
           map_of (ev_document now column_names row) (column_names ! i) = Some (row ! i))"
    by (simp add: ev_document_updates updates_conv' map_upds_distinct_nth)
  show "{''_imported_at'', ''_dataset_name'', ''_source''}
        \<subseteq> fst ` set (ev_document now column_names row)"
    using keys_updates [of "ev_internal_fields now" column_names row]
    by (simp add: ev_document_updates ev_internal_fields_def)
  show "''_imported_at'' \<notin> set column_names \<longrightarrow>
        map_of (ev_document now column_names row) ''_imported_at'' = Some (PDatetime now)"
    by (simp add: ev_document_absent_key ev_internal_fields_def)
  show "''_dataset_name'' \<notin> set column_names \<longrightarrow>
        map_of (ev_document now column_names row) ''_dataset_name''
          = Some (PStr ''Electric Vehicle Population Data'')"
    by (simp add: ev_document_absent_key ev_internal_fields_def)
  show "''_source'' \<notin> set column_names \<longrightarrow>
        map_of (ev_document now column_names row) ''_source'' = Some (PStr ''Washington State DOL'')"
    by (simp add: ev_document_absent_key ev_internal_fields_def)
qed

theorem ev_document_positions_witness:
  "ev_document 7 [''VIN'', ''City''] [PStr ''5YJ3E1EA7K'', PStr ''Seattle'', PStr ''WA'']
     = ev_document 7 [''VIN'', ''City''] [PStr ''5YJ3E1EA7K'', PStr ''Seattle'']
   \<and> map_of (ev_document 7 [''VIN'', ''City''] [PStr ''5YJ3E1EA7K'', PStr ''Seattle'', PStr ''WA''])
        ''City'' = Some (PStr ''Seattle'')
   \<and> map_of (ev_document 7 [''VIN'', ''City''] [PStr ''5YJ3E1EA7K'', PStr ''Seattle'', PStr ''WA''])
        ''_imported_at'' = Some (PDatetime 7)
   \<and> map_of (ev_document 7 [''VIN'', ''City''] [PStr ''5YJ3E1EA7K'', PStr ''Seattle'', PStr ''WA''])
        ''_dataset_name'' = Some (PStr ''Electric Vehicle Population Data'')
   \<and> map_of (ev_document 7 [''VIN'', ''City''] [PStr ''5YJ3E1EA7K'', PStr ''Seattle'', PStr ''WA''])
        ''_source'' = Some (PStr ''Washington State DOL'')
   \<and> ev_document 7 [''VIN'', ''City''] [PStr ''5YJ3E1EA7K'', PStr ''Seattle'', PStr ''WA'']
     = [(''_imported_at'', PDatetime 7),
        (''_dataset_name'', PStr ''Electric Vehicle Population Data''),
        (''_source'', PStr ''Washington State DOL''),
        (''VIN'', PStr ''5YJ3E1EA7K''), (''City'', PStr ''Seattle'')]"
proof -
  have d: "distinct [''VIN'', ''City'']" by simp
  have n: "''_imported_at'' \<notin> set [''VIN'', ''City'']" "''_dataset_name'' \<notin> set [''VIN'', ''City'']"
    "''_source'' \<notin> set [''VIN'', ''City'']"
    by simp_all
  have e: "ev_document 7 [''VIN'', ''City''] [PStr ''5YJ3E1EA7K'', PStr ''Seattle'']
     = [(''_imported_at'', PDatetime 7),
        (''_dataset_name'', PStr ''Electric Vehicle Population Data''),
        (''_source'', PStr ''Washington State DOL''),
        (''VIN'', PStr ''5YJ3E1EA7K''), (''City'', PStr ''Seattle'')]"
    by (simp add: ev_document_def ev_internal_fields_def)
  note w = ev_document_positions [of 7 "[''VIN'', ''City'']"
        "[PStr ''5YJ3E1EA7K'', PStr ''Seattle'', PStr ''WA'']"]
  from w [THEN conjunct1]
  have a: "ev_document 7 [''VIN'', ''City''] [PStr ''5YJ3E1EA7K'', PStr ''Seattle'', PStr ''WA'']
     = ev_document 7 [''VIN'', ''City''] [PStr ''5YJ3E1EA7K'', PStr ''Seattle'']"
    by simp
  from w [THEN conjunct2, THEN conjunct2, THEN conjunct1] d
  have "map_of (ev_document 7 [''VIN'', ''City'']
      [PStr ''5YJ3E1EA7K'', PStr ''Seattle'', PStr ''WA'']) ([''VIN'', ''City''] ! 1)
      = Some ([PStr ''5YJ3E1EA7K'', PStr ''Seattle'', PStr ''WA''] ! 1)"
    by (auto dest: spec [of _ 1])
  then have c: "map_of (ev_document 7 [''VIN'', ''City'']
      [PStr ''5YJ3E1EA7K'', PStr ''Seattle'', PStr ''WA'']) ''City'' = Some (PStr ''Seattle'')"
    by simp
  note r = w [THEN conjunct2, THEN conjunct2, THEN conjunct2, THEN conjunct2]
  from r [THEN conjunct1] r [THEN conjunct2, THEN conjunct1] r [THEN conjunct2, THEN conjunct2] n
  have i: "map_of (ev_document 7 [''VIN'', ''City'']
      [PStr ''5YJ3E1EA7K'', PStr ''Seattle'', PStr ''WA'']) ''_imported_at'' = Some (PDatetime 7)"
    "map_of (ev_document 7 [''VIN'', ''City'']
      [PStr ''5YJ3E1EA7K'', PStr ''Seattle'', PStr ''WA'']) ''_dataset_name''
      = Some (PStr ''Electric Vehicle Population Data'')"
    "map_of (ev_document 7 [''VIN'', ''City'']
      [PStr ''5YJ3E1EA7K'', PStr ''Seattle'', PStr ''WA'']) ''_source''
      = Some (PStr ''Washington State DOL'')"
    by simp_all
  from a e have f: "ev_document 7 [''VIN'', ''City''] [PStr ''5YJ3E1EA7K'', PStr ''Seattle'', PStr ''WA'']
     = [(''_imported_at'', PDatetime 7),
        (''_dataset_name'', PStr ''Electric Vehicle Population Data''),
        (''_source'', PStr ''Washington State DOL''),
        (''VIN'', PStr ''5YJ3E1EA7K''), (''City'', PStr ''Seattle'')]"
    by simp
  show ?thesis by (intro conjI a c i f)
qed

subsection \<open>The metadata document in the raw collections\<close>

lemma summary_entry:
  "n \<in> fst ` set d \<Longrightarrow> (n, length (coll d n)) \<in> set (collection_summary d)"
  by (auto simp add: collection_summary_def list_collection_names_def count_documents_all_def)

lemma keys_delete_many_all: "fst ` set (delete_many_all n d) = fst ` set d"
proof (cases "map_of d n")
  case None
  then show ?thesis by (simp add: delete_many_all_def)
next
  case (Some c)
  then have "n \<in> fst ` set d"
    by (force dest: map_of_SomeD)
  with Some show ?thesis
    by (auto simp add: delete_many_all_def dom_update)
qed

lemma nutrition_block_keys: "fst ` set d \<subseteq> fst ` set (snd (nutrition_block enc now r d))"
proof (cases r)
  case (Raised e)
  then show ?thesis by (simp add: nutrition_block_Raised)
next
  case (Body recs)
  show ?thesis
    unfolding Body
    by (auto simp add: nutrition_block_def nutrition_try_Body Let_def dom_update
        keys_delete_many_all)
qed

lemma ev_block_key:
  "enc (ev_metadata_doc now j (column_names_of (columns_meta j))) \<Longrightarrow>
   EV_RAW_COLLECTION \<in> fst ` set (snd (ev_block enc now perm (Body j) d))"
  by (simp add: snd_ev_block ev_try_Body Let_def dom_update)

lemma nutrition_block_key:
  "recs \<noteq> [] \<Longrightarrow> list_all enc (map (nutrition_record now) recs) \<Longrightarrow>
   NUTRITION_RAW_COLLECTION \<in> fst ` set (snd (nutrition_block enc now (Body recs) d))"
  by (simp add: nutrition_block_def nutrition_try_Body Let_def dom_update)

lemma nutrition_record_flag:
  "map_of (nutrition_record now r) ''is_metadata'' = map_of r ''is_metadata''"
  by (simp add: nutrition_record_def update_conv')

lemma cleaning_summary_counts:
  assumes "snd (snd (cleaning mk_frame enc cow now ostr parse d)) = Completed"
    and "n \<in> fst ` set d" and "n \<noteq> ''ev_data_cleaned''" and "n \<noteq> ''nutrition_data_cleaned''"
  shows "CollectionCount n (count_documents_all (coll d n))
     \<in> set (fst (cleaning mk_frame enc cow now ostr parse d))"
proof -
  let ?ev = "to_records (clean_ev cow now ostr parse (mk_frame (find_non_metadata (coll d ''ev_data_raw''))))"
  let ?d1 = "delete_many_all ''ev_data_cleaned'' d"
  let ?d2 = "AList.update ''ev_data_cleaned'' (coll ?d1 ''ev_data_cleaned'' @ ?ev) ?d1"
  let ?nu = "to_records (clean_nutrition cow now ostr parse
      (mk_frame (find_non_metadata (coll ?d2 ''nutrition_data_raw''))))"
  let ?d3 = "delete_many_all ''nutrition_data_cleaned'' ?d2"
  let ?d4 = "AList.update ''nutrition_data_cleaned'' (coll ?d3 ''nutrition_data_cleaned'' @ ?nu) ?d3"
  from assms(1) have ne: "?ev \<noteq> [] \<and> list_all enc ?ev"
    by (auto simp add: cleaning_def Let_def insert_many_def split: if_splits)
  with assms(1) have nn: "?nu \<noteq> [] \<and> list_all enc ?nu"
    by (auto simp add: cleaning_def Let_def insert_many_def split: if_splits)
  have log: "set (map (\<lambda>(n, k). CollectionCount n k) (collection_summary ?d4))
      \<subseteq> set (fst (cleaning mk_frame enc cow now ostr parse d))"
    using ne nn by (auto simp add: cleaning_def Let_def insert_many_def)
  have "coll ?d4 n = coll d n"
    using assms(3,4) by (simp add: coll_update coll_delete_many_all)
  moreover have "n \<in> fst ` set ?d4"
    using assms(2) by (simp add: dom_update keys_delete_many_all)
  ultimately have "(n, length (coll d n)) \<in> set (collection_summary ?d4)"
    using summary_entry [of n ?d4] by simp
  then have "CollectionCount n (length (coll d n))
      \<in> set (map (\<lambda>(n, k). CollectionCount n k) (collection_summary ?d4))"
    by force
  with log show ?thesis
    by (auto simp add: count_documents_all_def)
qed

lemma to_records_empty: "to_records f = [] \<longleftrightarrow> nrows f = 0"
  by (simp add: to_records_def)

text \<open>
  C3 (amended). The metadata document of either raw collection carries
  \<^verbatim>\<open>is_metadata: true\<close>. The row iteration of the cleaning stage, \<^verbatim>\<open>find\<close> with
  \<^verbatim>\<open>is_metadata\<close> not equal to \<^verbatim>\<open>true\<close>, never returns a document flagged so: read
  from the EV or the nutrition collection after ingestion it returns what it returns
  on the stored rows alone (none when the driver could not encode them), and all of
  them when no row carries the flag itself. The document counts of the summary,
  \<^verbatim>\<open>count_documents({})\<close>, do include the metadata document: after ingestion the count
  is the number of stored rows plus one for the stored metadata document, and the
  summary of a cleaning run that completes prints the count of every document of
  either raw collection it read.
\<close>

theorem metadata_document_handling:
  "map_of (ev_metadata_doc now j (column_names_of (columns_meta j))) ''is_metadata'' = Some (PBool True)
   \<and> map_of (nutrition_metadata_doc now recs) ''is_metadata'' = Some (PBool True)
   \<and> (\<forall>x \<in> set (find_non_metadata c). map_of x ''is_metadata'' \<noteq> Some (PBool True))
   \<and> find_non_metadata (coll (snd (ev_block enc now perm (Body j) d)) EV_RAW_COLLECTION)
       = (if enc (ev_metadata_doc now j (column_names_of (columns_meta j)))
             \<and> list_all enc (map (ev_document now (column_names_of (columns_meta j)))
                  (sampled_rows perm (data j)))
          then find_non_metadata (map (ev_document now (column_names_of (columns_meta j)))
                  (sampled_rows perm (data j)))
          else [])
   \<and> (''is_metadata'' \<notin> set (column_names_of (columns_meta j)) \<longrightarrow>
        find_non_metadata (coll (snd (ev_block enc now perm (Body j) d)) EV_RAW_COLLECTION)
          = (if enc (ev_metadata_doc now j (column_names_of (columns_meta j)))
                \<and> list_all enc (map (ev_document now (column_names_of (columns_meta j)))
                     (sampled_rows perm (data j)))
             then map (ev_document now (column_names_of (columns_meta j))) (sampled_rows perm (data j))
             else []))
   \<and> find_non_metadata (coll (snd (nutrition_block enc now (Body recs) d)) NUTRITION_RAW_COLLECTION)
       = (if list_all enc (map (nutrition_record now) recs)
          then find_non_metadata (map (nutrition_record now) recs) else [])
   \<and> ((\<forall>r \<in> set recs. map_of r ''is_metadata'' = None) \<longrightarrow>
        find_non_metadata (coll (snd (nutrition_block enc now (Body recs) d)) NUTRITION_RAW_COLLECTION)
          = (if list_all enc (map (nutrition_record now) recs)
             then map (nutrition_record now) recs else []))
   \<and> count_documents_all (coll (snd (ev_block enc now perm (Body j) d)) EV_RAW_COLLECTION)
       = (if enc (ev_metadata_doc now j (column_names_of (columns_meta j)))
          then (if list_all enc (map (ev_document now (column_names_of (columns_meta j)))
                     (sampled_rows perm (data j)))
                then length (sampled_rows perm (data j)) else 0) + 1
          else 0)
   \<and> (enc (ev_metadata_doc now j (column_names_of (columns_meta j))) \<longrightarrow>
        CollectionCount EV_RAW_COLLECTION
          ((if list_all enc (map (ev_document now (column_names_of (columns_meta j)))
                     (sampled_rows perm (data j)))
            then length (sampled_rows perm (data j)) else 0) + 1)
          \<in> set (fst (ingestion enc now perm (Body j) nut_resp d)))
   \<and> (recs \<noteq> [] \<and> list_all enc (map (nutrition_record now) recs) \<longrightarrow>
        CollectionCount NUTRITION_RAW_COLLECTION
          (length recs + (if enc (nutrition_metadata_doc now recs) then 1 else 0))
          \<in> set (fst (ingestion enc now perm ev_resp (Body recs) d)))
   \<and> (snd (snd (cleaning mk_frame enc cow now ostr parse d')) = Completed
        \<and> EV_RAW_COLLECTION \<in> fst ` set d' \<longrightarrow>
        CollectionCount EV_RAW_COLLECTION (count_documents_all (coll d' EV_RAW_COLLECTION))
          \<in> set (fst (cleaning mk_frame enc cow now ostr parse d')))
   \<and> (snd (snd (cleaning mk_frame enc cow now ostr parse d')) = Completed
        \<and> NUTRITION_RAW_COLLECTION \<in> fst ` set d' \<longrightarrow>
        CollectionCount NUTRITION_RAW_COLLECTION
            (count_documents_all (coll d' NUTRITION_RAW_COLLECTION))
          \<in> set (fst (cleaning mk_frame enc cow now ostr parse d')))"
proof (intro conjI impI)
  let ?ns = "column_names_of (columns_meta j)"
  let ?meta = "ev_metadata_doc now j ?ns"
  let ?rows = "sampled_rows perm (data j)"
  let ?docs = "map (ev_document now ?ns) ?rows"
  let ?ndocs = "map (nutrition_record now) recs"
  have evf: "find_non_metadata (?meta # ?docs) = find_non_metadata ?docs"
    using find_non_metadata_flagged [OF ev_metadata_flag, of "[]" now j ?ns ?docs]
    by (simp add: find_non_metadata_def)
  have evm: "find_non_metadata [?meta] = []"
    using find_non_metadata_flagged [OF ev_metadata_flag, of "[]" now j ?ns "[]"]
    by (simp add: find_non_metadata_def)
  have nuf: "find_non_metadata (?ndocs @ [nutrition_metadata_doc now recs]) = find_non_metadata ?ndocs"
    using find_non_metadata_flagged [OF nutrition_metadata_flag, of ?ndocs now recs "[]"]
    by (simp add: find_non_metadata_def)
  have e0: "find_non_metadata [] = []"
    by (simp add: find_non_metadata_def)
  show "map_of ?meta ''is_metadata'' = Some (PBool True)"
    by (rule ev_metadata_flag)
  show "map_of (nutrition_metadata_doc now recs) ''is_metadata'' = Some (PBool True)"
    by (rule nutrition_metadata_flag)
  show "\<forall>x \<in> set (find_non_metadata c). map_of x ''is_metadata'' \<noteq> Some (PBool True)"
    using find_non_metadata_not_true by blast
  show ev: "find_non_metadata (coll (snd (ev_block enc now perm (Body j) d)) EV_RAW_COLLECTION)
       = (if enc ?meta \<and> list_all enc ?docs then find_non_metadata ?docs else [])"
    by (simp add: ev_block_coll Let_def evf evm e0)
  show nu: "find_non_metadata (coll (snd (nutrition_block enc now (Body recs) d)) NUTRITION_RAW_COLLECTION)
       = (if list_all enc ?ndocs then find_non_metadata ?ndocs else [])"
    by (simp add: nutrition_block_coll Let_def nuf e0)
  show "count_documents_all (coll (snd (ev_block enc now perm (Body j) d)) EV_RAW_COLLECTION)
       = (if enc ?meta then (if list_all enc ?docs then length ?rows else 0) + 1 else 0)"
    by (simp add: ev_block_coll Let_def count_documents_all_def)
  {
    assume "''is_metadata'' \<notin> set ?ns"
    then have "\<forall>x \<in> set ?docs. map_of x ''is_metadata'' = None"
      by (simp add: ev_document_absent_key ev_internal_fields_def)
    then have "find_non_metadata ?docs = ?docs"
      by (rule find_non_metadata_unflagged)
    with ev show "find_non_metadata (coll (snd (ev_block enc now perm (Body j) d)) EV_RAW_COLLECTION)
          = (if enc ?meta \<and> list_all enc ?docs then ?docs else [])"
      by simp
  }
  {
    assume "\<forall>r \<in> set recs. map_of r ''is_metadata'' = None"
    then have "\<forall>x \<in> set ?ndocs. map_of x ''is_metadata'' = None"
      by (simp add: nutrition_record_flag)
    then have "find_non_metadata ?ndocs = ?ndocs"
      by (rule find_non_metadata_unflagged)
    with nu show "find_non_metadata (coll (snd (nutrition_block enc now (Body recs) d))
          NUTRITION_RAW_COLLECTION) = (if list_all enc ?ndocs then ?ndocs else [])"
      by simp
  }
  {
    assume m: "enc ?meta"
    let ?d2 = "snd (nutrition_block enc now nut_resp (snd (ev_block enc now perm (Body j) d)))"
    have "EV_RAW_COLLECTION \<in> fst ` set ?d2"
      using m ev_block_key [where enc = enc and now = now and j = j and perm = perm and d = d]
        nutrition_block_keys [of "snd (ev_block enc now perm (Body j) d)" enc now nut_resp] by blast
    moreover have "length (coll ?d2 EV_RAW_COLLECTION)
        = (if list_all enc ?docs then length ?rows else 0) + 1"
      using raw_collections_differ m by (simp add: nutrition_block_other ev_block_coll Let_def)
    ultimately have "(EV_RAW_COLLECTION, (if list_all enc ?docs then length ?rows else 0) + 1)
        \<in> set (collection_summary ?d2)"
      using summary_entry [of EV_RAW_COLLECTION ?d2] by simp
    then show "CollectionCount EV_RAW_COLLECTION
          ((if list_all enc ?docs then length ?rows else 0) + 1)
          \<in> set (fst (ingestion enc now perm (Body j) nut_resp d))"
      by (force simp add: ingestion_unfold)
  }
  {
    assume ne: "recs \<noteq> [] \<and> list_all enc ?ndocs"
    let ?d1 = "snd (ev_block enc now perm ev_resp d)"
    let ?d2 = "snd (nutrition_block enc now (Body recs) ?d1)"
    have "NUTRITION_RAW_COLLECTION \<in> fst ` set ?d2"
      using ne by (simp add: nutrition_block_key)
    moreover have "length (coll ?d2 NUTRITION_RAW_COLLECTION)
        = length recs + (if enc (nutrition_metadata_doc now recs) then 1 else 0)"
      using ne by (simp add: nutrition_block_coll Let_def)
    ultimately have "(NUTRITION_RAW_COLLECTION,
          length recs + (if enc (nutrition_metadata_doc now recs) then 1 else 0))
        \<in> set (collection_summary ?d2)"
      using summary_entry [of NUTRITION_RAW_COLLECTION ?d2] by simp
    then show "CollectionCount NUTRITION_RAW_COLLECTION
          (length recs + (if enc (nutrition_metadata_doc now recs) then 1 else 0))
          \<in> set (fst (ingestion enc now perm ev_resp (Body recs) d))"
      by (force simp add: ingestion_unfold)
  }
  {
    assume "snd (snd (cleaning mk_frame enc cow now ostr parse d')) = Completed
        \<and> EV_RAW_COLLECTION \<in> fst ` set d'"
    then show "CollectionCount EV_RAW_COLLECTION (count_documents_all (coll d' EV_RAW_COLLECTION))
          \<in> set (fst (cleaning mk_frame enc cow now ostr parse d'))"
      by (intro cleaning_summary_counts) (simp_all add: EV_RAW_COLLECTION_def)
  }
  {
    assume "snd (snd (cleaning mk_frame enc cow now ostr parse d')) = Completed
        \<and> NUTRITION_RAW_COLLECTION \<in> fst ` set d'"
    then show "CollectionCount NUTRITION_RAW_COLLECTION
            (count_documents_all (coll d' NUTRITION_RAW_COLLECTION))
          \<in> set (fst (cleaning mk_frame enc cow now ostr parse d'))"
      by (intro cleaning_summary_counts) (simp_all add: NUTRITION_RAW_COLLECTION_def)
  }
qed

theorem metadata_document_handling_witness:
  "find_non_metadata (coll (snd (ev_block int64_doc 0 []
        (Body \<lparr>columns_meta = [\<lparr>name = Some ''VIN'', other_fields = []\<rparr>],
               data = [[PStr ''5YJ3E1EA7K'']]\<rparr>) [])) EV_RAW_COLLECTION)
     = [ev_document 0 [''VIN''] [PStr ''5YJ3E1EA7K'']]
   \<and> count_documents_all (coll (snd (ev_block int64_doc 0 []
        (Body \<lparr>columns_meta = [\<lparr>name = Some ''VIN'', other_fields = []\<rparr>],
               data = [[PStr ''5YJ3E1EA7K'']]\<rparr>) [])) EV_RAW_COLLECTION) = 2
   \<and> CollectionCount EV_RAW_COLLECTION 2
        \<in> set (fst (ingestion int64_doc 0 []
            (Body \<lparr>columns_meta = [\<lparr>name = Some ''VIN'', other_fields = []\<rparr>],
                   data = [[PStr ''5YJ3E1EA7K'']]\<rparr>)
            (Body [[(''yearstart'', PStr ''2011'')]]) []))
   \<and> CollectionCount NUTRITION_RAW_COLLECTION 2
        \<in> set (fst (ingestion int64_doc 0 []
            (Body \<lparr>columns_meta = [\<lparr>name = Some ''VIN'', other_fields = []\<rparr>],
                   data = [[PStr ''5YJ3E1EA7K'']]\<rparr>)
            (Body [[(''yearstart'', PStr ''2011'')]]) []))
   \<and> find_non_metadata (coll (snd (nutrition_block int64_doc 0 (Body [[(''yearstart'', PStr ''2011'')]]) []))
        NUTRITION_RAW_COLLECTION)
     = [nutrition_record 0 [(''yearstart'', PStr ''2011'')]]
   \<and> CollectionCount EV_RAW_COLLECTION 2
        \<in> set (fst (cleaning (\<lambda>docs. \<lparr>nrows = length docs, columns = []\<rparr>) (\<lambda>x. True) False 0
            (\<lambda>v. []) parse_decimal
            [(''ev_data_raw'', [[(''is_metadata'', PBool True)], [(''VIN'', PStr ''5YJ3E1EA7K'')]]),
             (''nutrition_data_raw'', [[(''yearstart'', PStr ''2011'')], [(''is_metadata'', PBool True)]])]))
   \<and> CollectionCount NUTRITION_RAW_COLLECTION 2
        \<in> set (fst (cleaning (\<lambda>docs. \<lparr>nrows = length docs, columns = []\<rparr>) (\<lambda>x. True) False 0
            (\<lambda>v. []) parse_decimal
            [(''ev_data_raw'', [[(''is_metadata'', PBool True)], [(''VIN'', PStr ''5YJ3E1EA7K'')]]),
             (''nutrition_data_raw'', [[(''yearstart'', PStr ''2011'')], [(''is_metadata'', PBool True)]])]))"
proof -
  let ?j = "\<lparr>columns_meta = [\<lparr>name = Some ''VIN'', other_fields = []\<rparr>],
             data = [[PStr ''5YJ3E1EA7K'']]\<rparr>"
  let ?recs = "[[(''yearstart'', PStr ''2011'')]]"
  let ?mk = "\<lambda>docs :: doc list. \<lparr>nrows = length docs, columns = []\<rparr>"
  let ?d = "[(''ev_data_raw'', [[(''is_metadata'', PBool True)], [(''VIN'', PStr ''5YJ3E1EA7K'')]]),
             (''nutrition_data_raw'', [[(''yearstart'', PStr ''2011'')], [(''is_metadata'', PBool True)]])]"
  have ns: "column_names_of [\<lparr>name = Some ''VIN'', other_fields = []\<rparr>] = [''VIN'']"
    by (simp add: column_names_of_def enumerate_eq_zip)
  have rows: "sampled_rows [] [[PStr ''5YJ3E1EA7K'']] = [[PStr ''5YJ3E1EA7K'']]"
    by (simp add: sampled_rows_small SAMPLE_SIZE_def)
  have e1: "int64_doc (ev_metadata_doc 0 ?j [''VIN''])"
    by (simp add: int64_doc_def ev_metadata_doc_def in_int64_def SAMPLE_SIZE_def column_meta_doc_def)
  have e2: "int64_doc (ev_document 0 [''VIN''] [PStr ''5YJ3E1EA7K''])"
    by (simp add: int64_doc_def ev_document_def ev_internal_fields_def)
  have e3: "int64_doc (nutrition_record 0 [(''yearstart'', PStr ''2011'')])"
    by (simp add: int64_doc_def nutrition_record_def)
  have e4: "int64_doc (nutrition_metadata_doc 0 ?recs)"
    by (simp add: int64_doc_def nutrition_metadata_doc_def in_int64_def)
  have h1: "''is_metadata'' \<notin> set (column_names_of (columns_meta ?j))"
    by (simp add: ns)
  have h2: "\<forall>r \<in> set ?recs. map_of r ''is_metadata'' = None"
    by simp
  have h3: "snd (snd (cleaning ?mk (\<lambda>x. True) False 0 (\<lambda>v. []) parse_decimal ?d)) = Completed"
    by (simp add: cleaning_def Let_def insert_many_def to_records_empty find_non_metadata_def
        ne_true_def coll_def delete_many_all_def list_all_iff)
  have h4: "EV_RAW_COLLECTION \<in> fst ` set ?d" "NUTRITION_RAW_COLLECTION \<in> fst ` set ?d"
    by (simp_all add: EV_RAW_COLLECTION_def NUTRITION_RAW_COLLECTION_def)
  have c: "count_documents_all (coll ?d EV_RAW_COLLECTION) = 2"
    "count_documents_all (coll ?d NUTRITION_RAW_COLLECTION) = 2"
    by (simp_all add: count_documents_all_def coll_def EV_RAW_COLLECTION_def
        NUTRITION_RAW_COLLECTION_def)
  note m = metadata_document_handling [where now = 0 and perm = "[]" and d = "[]"
      and enc = int64_doc and j = ?j and recs = ?recs and ev_resp = "Body ?j"
      and nut_resp = "Body ?recs"]
  note k = metadata_document_handling [where now = 0 and enc = "\<lambda>x. True" and cow = False
      and mk_frame = ?mk and ostr = "\<lambda>v. []" and parse = parse_decimal and d' = ?d]
  note m4 = m [THEN conjunct2, THEN conjunct2, THEN conjunct2, THEN conjunct2]
  note m7 = m4 [THEN conjunct2, THEN conjunct2]
  note m8 = m7 [THEN conjunct2]
  note m9 = m8 [THEN conjunct2]
  note m10 = m9 [THEN conjunct2]
  note k4 = k [THEN conjunct2, THEN conjunct2, THEN conjunct2, THEN conjunct2]
  note k8 = k4 [THEN conjunct2, THEN conjunct2, THEN conjunct2, THEN conjunct2]
  note k10 = k8 [THEN conjunct2, THEN conjunct2]
  from m4 [THEN conjunct1] h1
  have 1: "find_non_metadata (coll (snd (ev_block int64_doc 0 [] (Body ?j) [])) EV_RAW_COLLECTION)
      = [ev_document 0 [''VIN''] [PStr ''5YJ3E1EA7K'']]"
    by (simp add: ns rows e1 e2)
  from m8 [THEN conjunct1]
  have 2: "count_documents_all (coll (snd (ev_block int64_doc 0 [] (Body ?j) [])) EV_RAW_COLLECTION)
      = 2"
    by (simp add: ns rows e1 e2)
  from m9 [THEN conjunct1]
  have 3: "CollectionCount EV_RAW_COLLECTION 2
      \<in> set (fst (ingestion int64_doc 0 [] (Body ?j) (Body ?recs) []))"
    by (simp add: ns rows e1 e2 numeral_2_eq_2)
  from m10 [THEN conjunct1]
  have 4: "CollectionCount NUTRITION_RAW_COLLECTION 2
      \<in> set (fst (ingestion int64_doc 0 [] (Body ?j) (Body ?recs) []))"
    by (simp add: e3 e4 numeral_2_eq_2)
  from m7 [THEN conjunct1] h2
  have 5: "find_non_metadata (coll (snd (nutrition_block int64_doc 0 (Body ?recs) []))
        NUTRITION_RAW_COLLECTION) = [nutrition_record 0 [(''yearstart'', PStr ''2011'')]]"
    by (simp add: e3)
  from k10 [THEN conjunct1, THEN mp, OF conjI [OF h3 h4(1)]]
  have 6: "CollectionCount EV_RAW_COLLECTION 2
      \<in> set (fst (cleaning ?mk (\<lambda>x. True) False 0 (\<lambda>v. []) parse_decimal ?d))"
    by (simp only: c(1))
  from k10 [THEN conjunct2, THEN mp, OF conjI [OF h3 h4(2)]]
  have 7: "CollectionCount NUTRITION_RAW_COLLECTION 2
      \<in> set (fst (cleaning ?mk (\<lambda>x. True) False 0 (\<lambda>v. []) parse_decimal ?d))"
    by (simp only: c(2))
  show ?thesis by (intro conjI 1 2 3 4 5 6 7)
qed

theorem metadata_counted_counterexample:
  "sampled_rows [] (data \<lparr>columns_meta = [], data = [[PStr ''5YJ3E1EA7K'']]\<rparr>) = [[PStr ''5YJ3E1EA7K'']]
   \<and> fst (ingestion int64_doc 0 [] (Body \<lparr>columns_meta = [], data = [[PStr ''5YJ3E1EA7K'']]\<rparr>)
          (Raised RequestException) [])
     = [RecordsInserted EV_RAW_COLLECTION 1, DownloadError ''Nutrition'' RequestException,
        CollectionCount EV_RAW_COLLECTION 2]"
proof -
  let ?j = "\<lparr>columns_meta = [], data = [[PStr ''5YJ3E1EA7K'']]\<rparr>"
  have ns: "column_names_of [] = []"
    by (simp add: column_names_of_def enumerate_eq_zip)
  have s: "sampled_rows [] [[PStr ''5YJ3E1EA7K'']] = [[PStr ''5YJ3E1EA7K'']]"
    by (simp add: sampled_rows_small SAMPLE_SIZE_def)
  have e1: "int64_doc (ev_metadata_doc 0 ?j [])"
    by (simp add: int64_doc_def ev_metadata_doc_def in_int64_def SAMPLE_SIZE_def)
  have e2: "int64_doc (ev_document 0 [] [PStr ''5YJ3E1EA7K''])"
    by (simp add: int64_doc_def ev_document_def ev_internal_fields_def)
  have "collection_summary (snd (ev_block int64_doc 0 [] (Body ?j) [])) = [(EV_RAW_COLLECTION, 2)]"
    by (simp add: snd_ev_block ev_try_Body Let_def s ns e1 e2 collection_summary_def
        list_collection_names_def count_documents_all_def delete_many_all_def coll_def)
  then show ?thesis
    using s by (simp add: ingestion_unfold nutrition_block_Raised ev_block_log Let_def ns e1 e2
        handle_exn_def)
qed

subsection \<open>The connectivity check\<close>

text \<open>
  C10. When the connectivity check of a stage raises \<open>e\<close>, the stage prints the error,
  leaves the store untouched and ends by \<^verbatim>\<open>exit()\<close>, that is \<^verbatim>\<open>SystemExit(None)\<close>,
  whose exit status is 0: the status of a run that completes.
\<close>

theorem connectivity_failure_exit_status:
  "ingestion_main (Some e) enc now perm ev_resp nut_resp d = ([ConnectionFailed e], d, SystemExit None)
   \<and> cleaning_main (Some e) mk_frame enc cow now ostr parse d = ([ConnectionFailed e], d, SystemExit None)
   \<and> analysis_main (Some e) analysis d = ([ConnectionFailed e], d, SystemExit None)
   \<and> visualizations_main (Some e) charts d = ([ConnectionFailed e], d, SystemExit None)
   \<and> exit_status (py_exit None) = 0
   \<and> exit_status Completed = 0
   \<and> exit_status (snd (snd (ingestion_main (Some e) enc now perm ev_resp nut_resp d)))
       = exit_status (snd (snd (ingestion_main None enc now perm ev_resp nut_resp d)))"
  by (simp add: ingestion_main_def cleaning_main_def analysis_main_def visualizations_main_def
      py_exit_def split: prod.splits)

subsection \<open>Decimal strings\<close>

lemma digit_chars_nth: "d < 10 \<Longrightarrow> is_digit (digit_chars ! d)"
  unfolding is_digit_def by (rule nth_mem) (simp add: digit_chars_def)

lemma digits_of_all_digits: "list_all is_digit (digits_of n)"
proof (induction n rule: digits_of.induct)
  case (1 n)
  show ?case
  proof (cases "n < 10")
    case True
    then show ?thesis by (subst digits_of.simps) (simp add: digit_chars_nth)
  next
    case False
    with 1 show ?thesis by (subst digits_of.simps) (simp add: digit_chars_nth)
  qed
qed

lemma py_remove_digits:
  "list_all is_digit s \<Longrightarrow> \<not> is_digit c \<Longrightarrow> py_remove c s = s"
  by (induction s) (auto simp add: py_remove_def)

lemma not_digit_dot_dash: "\<not> is_digit CHR ''.''" "\<not> is_digit CHR ''-''"
  by (simp_all add: is_digit_def digit_chars_def)

lemma isdigit_str_int: "isdigit (py_remove CHR ''-'' (py_remove CHR ''.'' (str_int i)))"
proof -
  have r: "py_remove CHR ''-'' (py_remove CHR ''.'' (digits_of n)) = digits_of n" for n
    by (simp add: py_remove_digits digits_of_all_digits not_digit_dot_dash)
  have "py_remove CHR ''-'' (py_remove CHR ''.'' (CHR ''-'' # digits_of n)) = digits_of n" for n
    using r [of n] by (simp add: py_remove_def)
  with r show ?thesis
    by (simp add: str_int_def isdigit_def digits_of_all_digits digits_of_nonempty)
qed

lemma parse_examples:
  "parse_decimal ''12.5'' = PFloat (25 / 2)"
  "parse_decimal ''10.0'' = PFloat 10"
  "parse_decimal ''98101'' = PInt 98101"
  "parse_decimal ''-3'' = PInt (- 3)"
  "parse_decimal ''2020-01-01'' = NA"
  "parse_decimal ''~'' = NA"
  "parse_decimal ''n/a'' = NA"
  by (simp_all add: parse_decimal_def parse_unsigned_def is_digit_def digit_chars_def
      nat_of_digits_def digit_value_def Let_def)

subsection \<open>The conversion test\<close>

lemma sample_val_first: "sample_val c = (case first_non_missing (cells c) of None \<Rightarrow> NA | Some v \<Rightarrow> v)"
proof -
  have "(if 0 < length (filter P xs) then hd (filter P xs) else NA)
      = (case find P xs of None \<Rightarrow> NA | Some v \<Rightarrow> v)"
    for P and xs :: "pyval list"
    by (induction xs) auto
  then show ?thesis
    unfolding sample_val_def dropna_def first_non_missing_def .
qed

lemma strip_twice: "py_remove CHR ''-'' (py_remove CHR ''.'' s) = filter (\<lambda>ch. ch \<notin> {CHR ''.'', CHR ''-''}) s"
  by (induction s) (simp_all add: py_remove_def)

lemma to_numeric_numeric: "dtype c \<in> {Float64, Int64} \<Longrightarrow> to_numeric parse c = c"
  by (simp add: to_numeric_def)

lemma ev_convert_spec:
  assumes "first_non_missing (cells c) = Some v" "is_scalar v" "v \<noteq> PInt 0" "v \<noteq> PFloat 0"
  shows "ev_convert ostr parse c = (if spec_numeric_test ostr (cells c) then to_numeric parse c else c)"
proof (cases "dtype c \<in> {Float64, Int64}")
  case True
  then show ?thesis by (simp add: ev_convert_def to_numeric_numeric)
next
  case False
  then have nI: "dtype c \<noteq> Int64" by simp
  have sv: "sample_val c = v" using assms(1) by (simp add: sample_val_first)
  have spec: "spec_numeric_test ostr (cells c) = isdigit (py_remove CHR ''-'' (py_remove CHR ''.'' (py_str ostr v)))"
    using assms(1) by (simp add: spec_numeric_test_def strip_twice isdigit_def Let_def)
  show ?thesis
  proof (cases v)
    case (PStr s)
    have "s = [] \<Longrightarrow> \<not> isdigit (py_remove CHR ''-'' (py_remove CHR ''.'' s))"
      by (simp add: isdigit_def py_remove_def)
    then show ?thesis
      using PStr by (auto simp add: ev_convert_def sv spec looks_numeric_def)
  next
    case (PBool b)
    have "\<not> isdigit (py_remove CHR ''-'' (py_remove CHR ''.'' (py_str ostr (PBool b))))"
      by (simp add: isdigit_def py_remove_def is_digit_def digit_chars_def)
    then show ?thesis
      using PBool by (simp add: ev_convert_def sv spec looks_numeric_def)
  qed (use assms nI in \<open>simp_all add: ev_convert_def sv spec looks_numeric_def\<close>)
qed

lemma ev_convert_no_sample:
  "first_non_missing (cells c) = None \<Longrightarrow> ev_convert ostr parse c = c"
  by (simp add: ev_convert_def sample_val_first looks_numeric_def)

lemma ev_convert_not_scalar:
  "first_non_missing (cells c) = Some v \<Longrightarrow> \<not> is_scalar v \<Longrightarrow> ev_convert ostr parse c = c"
  by (cases v) (simp_all add: ev_convert_def sample_val_first looks_numeric_def)



subsection \<open>The columns of the cleaned nutrition table\<close>

lemma col_coerce_column:
  "map_of (columns (coerce_column parse n f)) k =
     (if k = n then map_option (to_numeric parse) (map_of (columns f) k) else map_of (columns f) k)"
  by (cases "map_of (columns f) n") (auto simp add: coerce_column_def col_set_column)

lemma col_coerce_columns:
  "distinct ns \<Longrightarrow> map_of (columns (coerce_columns parse ns f)) k =
     (if k \<in> set ns then map_option (to_numeric parse) (map_of (columns f) k)
      else map_of (columns f) k)"
proof (induction ns arbitrary: f)
  case Nil
  show ?case by (simp add: coerce_columns_def)
next
  case (Cons n ns)
  have "map_of (columns (coerce_columns parse (n # ns) f)) k
      = map_of (columns (coerce_columns parse ns (coerce_column parse n f))) k"
    by (simp add: coerce_columns_def)
  also have "\<dots> = (if k \<in> set ns then map_option (to_numeric parse) (map_of (columns (coerce_column parse n f)) k)
      else map_of (columns (coerce_column parse n f)) k)"
    using Cons.prems by (intro Cons.IH) simp
  finally show ?case
    using Cons.prems by (auto simp add: col_coerce_column)
qed

lemma col_coerced:
  "map_of (columns (coerce_columns parse year_cols (coerce_columns parse numeric_cols f))) k =
     (if k \<in> set numeric_cols \<union> set year_cols then map_option (to_numeric parse) (map_of (columns f) k)
      else map_of (columns f) k)"
proof -
  have d: "distinct numeric_cols" "distinct year_cols" "set numeric_cols \<inter> set year_cols = {}"
    by (simp_all add: numeric_cols_def year_cols_def)
  then show ?thesis
    by (auto simp add: col_coerce_columns)
qed

lemma col_add_year_range:
  "k \<noteq> ''year_range'' \<Longrightarrow> map_of (columns (add_year_range ostr f)) k = map_of (columns f) k"
  by (simp add: add_year_range_def col_set_column split: option.splits)

lemma col_add_width:
  "map_of (columns (add_confidence_interval_width f)) k =
     (case (map_of (columns f) ''low_confidence_limit'', map_of (columns f) ''high_confidence_limit'') of
        (Some lo, Some hi) \<Rightarrow> if k = ''confidence_interval_width'' then Some (col_sub hi lo)
                               else map_of (columns f) k
      | _ \<Rightarrow> map_of (columns f) k)"
  by (simp add: add_confidence_interval_width_def col_set_column split: option.splits)

lemma col_add_bookkeeping:
  "k \<noteq> ''_record_id'' \<Longrightarrow> k \<noteq> ''_processed_at'' \<Longrightarrow>
   map_of (columns (add_bookkeeping now f)) k = map_of (columns f) k"
  by (simp add: add_bookkeeping_def col_set_column)

text \<open>The table after the coercions and the fill loop, before the derived columns.\<close>

lemma col_nutrition_filled:
  "k \<notin> set columns_to_drop \<Longrightarrow>
   map_of (columns (map_columns (fill_missing cow) (coerce_columns parse year_cols
      (coerce_columns parse numeric_cols (drop_internal f))))) k =
     (if k \<in> set numeric_cols \<union> set year_cols
      then map_option (\<lambda>c. fill_missing cow (to_numeric parse c)) (map_of (columns f) k)
      else map_option (fill_missing cow) (map_of (columns f) k))"
  by (simp add: col_map_columns col_coerced col_drop_internal option.map_comp comp_def)

lemma col_clean_nutrition_other:
  assumes "k \<notin> set columns_to_drop"
    "k \<notin> {''year_range'', ''confidence_interval_width'', ''_record_id'', ''_processed_at''}"
  shows "map_of (columns (clean_nutrition cow now ostr parse f)) k =
     (if k \<in> set numeric_cols \<union> set year_cols
      then map_option (\<lambda>c. fill_missing cow (to_numeric parse c)) (map_of (columns f) k)
      else map_option (fill_missing cow) (map_of (columns f) k))"
proof -
  let ?g = "map_columns (fill_missing cow) (coerce_columns parse year_cols
      (coerce_columns parse numeric_cols (drop_internal f)))"
  have "map_of (columns (clean_nutrition cow now ostr parse f)) k
      = map_of (columns (add_confidence_interval_width (add_year_range ostr ?g))) k"
    using assms(2) by (simp add: clean_nutrition_def col_add_bookkeeping)
  also have "\<dots> = map_of (columns (add_year_range ostr ?g)) k"
    using assms(2) by (simp add: col_add_width split: option.splits)
  also have "\<dots> = map_of (columns ?g) k"
    using assms(2) by (simp add: col_add_year_range)
  also have "\<dots> = (if k \<in> set numeric_cols \<union> set year_cols
      then map_option (\<lambda>c. fill_missing cow (to_numeric parse c)) (map_of (columns f) k)
      else map_option (fill_missing cow) (map_of (columns f) k))"
    using assms(1) by (rule col_nutrition_filled)
  finally show ?thesis .
qed

lemma col_clean_nutrition_width:
  assumes "map_of (columns f) ''low_confidence_limit'' = Some lo"
    "map_of (columns f) ''high_confidence_limit'' = Some hi"
  shows "map_of (columns (clean_nutrition cow now ostr parse f)) ''confidence_interval_width'' =
     Some (col_sub (fill_missing cow (to_numeric parse hi)) (fill_missing cow (to_numeric parse lo)))"
proof -
  let ?g = "map_columns (fill_missing cow) (coerce_columns parse year_cols
      (coerce_columns parse numeric_cols (drop_internal f)))"
  have lo: "map_of (columns (add_year_range ostr ?g)) ''low_confidence_limit''
      = Some (fill_missing cow (to_numeric parse lo))"
    using assms(1) col_nutrition_filled [where k = "''low_confidence_limit''" and parse = parse and f = f and cow = cow]
    by (simp add: col_add_year_range columns_to_drop_def numeric_cols_def)
  have hi: "map_of (columns (add_year_range ostr ?g)) ''high_confidence_limit''
      = Some (fill_missing cow (to_numeric parse hi))"
    using assms(2) col_nutrition_filled [where k = "''high_confidence_limit''" and parse = parse and f = f and cow = cow]
    by (simp add: col_add_year_range columns_to_drop_def numeric_cols_def)
  have "map_of (columns (clean_nutrition cow now ostr parse f)) ''confidence_interval_width''
      = map_of (columns (add_confidence_interval_width (add_year_range ostr ?g)))
          ''confidence_interval_width''"
    by (simp add: clean_nutrition_def col_add_bookkeeping)
  also have "\<dots> = Some (col_sub (fill_missing cow (to_numeric parse hi)) (fill_missing cow (to_numeric parse lo)))"
    by (simp add: col_add_width lo hi)
  finally show ?thesis .
qed

subsection \<open>Which columns are coerced\<close>

text \<open>
  C2 (amended). In the EV table every column goes through the same test. A column
  without a non-missing value is left as it is. When the first non-missing value is a
  Python \<^verbatim>\<open>int\<close>, \<^verbatim>\<open>float\<close>, \<^verbatim>\<open>str\<close> or \<^verbatim>\<open>bool\<close> other than a zero number, the
  column is coerced with \<^verbatim>\<open>pd.to_numeric\<close> if and only if the string form of that
  value, stripped of every \<^verbatim>\<open>.\<close> and \<^verbatim>\<open>-\<close>, is a digit string, and left as it is
  otherwise. When the first non-missing value is anything else (a datetime, a list, a
  dict) the column is left as it is. In the nutrition table the rule is not used:
  exactly the columns named in \<open>numeric_cols\<close> and \<open>year_cols\<close> are coerced, whatever
  they hold.
\<close>

theorem numeric_inference:
  "(first_non_missing (cells c) = None \<longrightarrow> ev_convert ostr parse c = c)
   \<and> (\<forall>v. first_non_missing (cells c) = Some v \<and> is_scalar v \<and> v \<noteq> PInt 0 \<and> v \<noteq> PFloat 0 \<longrightarrow>
        ev_convert ostr parse c
          = (if spec_numeric_test ostr (cells c) then to_numeric parse c else c))
   \<and> (\<forall>v. first_non_missing (cells c) = Some v \<and> \<not> is_scalar v \<longrightarrow> ev_convert ostr parse c = c)
   \<and> map_of (columns (map_columns (ev_convert ostr parse) f)) k
       = map_option (ev_convert ostr parse) (map_of (columns f) k)
   \<and> map_of (columns (coerce_columns parse year_cols (coerce_columns parse numeric_cols f))) k
       = (if k \<in> set numeric_cols \<union> set year_cols
          then map_option (to_numeric parse) (map_of (columns f) k)
          else map_of (columns f) k)"
  using ev_convert_no_sample [of c ostr parse] ev_convert_spec [of c _ ostr parse]
    ev_convert_not_scalar [of c _ ostr parse]
  by (simp add: col_map_columns col_coerced)

theorem numeric_inference_witness:
  "ev_convert (\<lambda>v. []) parse_decimal \<lparr>dtype = Object, cells = [NA, PStr ''98101'', PStr ''n/a'']\<rparr>
     = \<lparr>dtype = Float64, cells = [NA, PFloat 98101, NA]\<rparr>
   \<and> ev_convert (\<lambda>v. []) parse_decimal \<lparr>dtype = Object, cells = [PStr ''Seattle'', PStr ''98101'']\<rparr>
     = \<lparr>dtype = Object, cells = [PStr ''Seattle'', PStr ''98101'']\<rparr>
   \<and> ev_convert (\<lambda>v. []) parse_decimal \<lparr>dtype = Object, cells = [NA, NA]\<rparr>
     = \<lparr>dtype = Object, cells = [NA, NA]\<rparr>
   \<and> ev_convert (\<lambda>v. []) parse_decimal \<lparr>dtype = Object, cells = [PList [PInt 1], PStr ''12'']\<rparr>
     = \<lparr>dtype = Object, cells = [PList [PInt 1], PStr ''12'']\<rparr>"
proof -
  let ?c = "\<lparr>dtype = Object, cells = [NA, PStr ''98101'', PStr ''n/a'']\<rparr>"
  let ?d = "\<lparr>dtype = Object, cells = [PStr ''Seattle'', PStr ''98101'']\<rparr>"
  have c: "first_non_missing (cells ?c) = Some (PStr ''98101'')"
    and d: "first_non_missing (cells ?d) = Some (PStr ''Seattle'')"
    by (simp_all add: first_non_missing_def)
  have tc: "spec_numeric_test (\<lambda>v. []) (cells ?c)"
    and td: "\<not> spec_numeric_test (\<lambda>v. []) (cells ?d)"
    by (simp_all add: spec_numeric_test_def first_non_missing_def is_digit_def digit_chars_def)
  have n: "to_numeric parse_decimal ?c = \<lparr>dtype = Float64, cells = [NA, PFloat 98101, NA]\<rparr>"
    by (simp add: to_numeric_def parse_examples in_int64_def)
  from numeric_inference [of ?c "\<lambda>v. []" parse_decimal] c tc
  have "ev_convert (\<lambda>v. []) parse_decimal ?c = to_numeric parse_decimal ?c"
    by simp
  moreover from numeric_inference [of ?d "\<lambda>v. []" parse_decimal] d td
  have "ev_convert (\<lambda>v. []) parse_decimal ?d = ?d"
    by simp
  moreover have "first_non_missing (cells \<lparr>dtype = Object, cells = [NA, NA]\<rparr>) = None"
    by (simp add: first_non_missing_def)
  with numeric_inference [of "\<lparr>dtype = Object, cells = [NA, NA]\<rparr>" "\<lambda>v. []" parse_decimal]
  have "ev_convert (\<lambda>v. []) parse_decimal \<lparr>dtype = Object, cells = [NA, NA]\<rparr>
      = \<lparr>dtype = Object, cells = [NA, NA]\<rparr>"
    by blast
  moreover have "first_non_missing (cells \<lparr>dtype = Object, cells = [PList [PInt 1], PStr ''12'']\<rparr>)
      = Some (PList [PInt 1])" "\<not> is_scalar (PList [PInt 1])"
    by (simp_all add: first_non_missing_def)
  with numeric_inference [of "\<lparr>dtype = Object, cells = [PList [PInt 1], PStr ''12'']\<rparr>"
      "\<lambda>v. []" parse_decimal]
  have "ev_convert (\<lambda>v. []) parse_decimal \<lparr>dtype = Object, cells = [PList [PInt 1], PStr ''12'']\<rparr>
      = \<lparr>dtype = Object, cells = [PList [PInt 1], PStr ''12'']\<rparr>"
    by blast
  ultimately show ?thesis
    by (simp only: n simp_thms)
qed

theorem numeric_inference_counterexample:
  "spec_numeric_test (\<lambda>v. []) [PStr ''01'', PStr ''02'']
   \<and> map_of (columns (clean_nutrition False 0 (\<lambda>v. []) parse_decimal
        \<lparr>nrows = 2, columns =
          [(''locationid'', \<lparr>dtype = Object, cells = [PStr ''01'', PStr ''02'']\<rparr>),
           (''data_value'', \<lparr>dtype = Object, cells = [PStr ''~'', PStr ''3.5'']\<rparr>)]\<rparr>)) ''locationid''
       = Some \<lparr>dtype = Object, cells = [PStr ''01'', PStr ''02'']\<rparr>
   \<and> \<not> spec_numeric_test (\<lambda>v. []) [PStr ''~'', PStr ''3.5'']
   \<and> map_of (columns (clean_nutrition False 0 (\<lambda>v. []) parse_decimal
        \<lparr>nrows = 2, columns =
          [(''locationid'', \<lparr>dtype = Object, cells = [PStr ''01'', PStr ''02'']\<rparr>),
           (''data_value'', \<lparr>dtype = Object, cells = [PStr ''~'', PStr ''3.5'']\<rparr>)]\<rparr>)) ''data_value''
       = Some \<lparr>dtype = Float64, cells = [PFloat (7 / 2), PFloat (7 / 2)]\<rparr>
   \<and> spec_numeric_test (\<lambda>v. []) [PInt 0, PStr ''12'']
   \<and> ev_convert (\<lambda>v. []) parse_decimal \<lparr>dtype = Object, cells = [PInt 0, PStr ''12'']\<rparr>
       = \<lparr>dtype = Object, cells = [PInt 0, PStr ''12'']\<rparr>"
proof -
  let ?f = "\<lparr>nrows = 2, columns =
          [(''locationid'', \<lparr>dtype = Object, cells = [PStr ''01'', PStr ''02'']\<rparr>),
           (''data_value'', \<lparr>dtype = Object, cells = [PStr ''~'', PStr ''3.5'']\<rparr>)]\<rparr>"
  have t: "spec_numeric_test (\<lambda>v. []) [PStr ''01'', PStr ''02'']"
    "\<not> spec_numeric_test (\<lambda>v. []) [PStr ''~'', PStr ''3.5'']"
    by (simp_all add: spec_numeric_test_def first_non_missing_def is_digit_def digit_chars_def)
  have z: "spec_numeric_test (\<lambda>v. []) [PInt 0, PStr ''12'']"
    by (simp add: spec_numeric_test_def first_non_missing_def is_digit_def digit_chars_def
        str_int_def digits_of.simps)
  have e: "ev_convert (\<lambda>v. []) parse_decimal \<lparr>dtype = Object, cells = [PInt 0, PStr ''12'']\<rparr>
       = \<lparr>dtype = Object, cells = [PInt 0, PStr ''12'']\<rparr>"
    by (simp add: ev_convert_def sample_val_def dropna_def looks_numeric_def)
  have "3.5 = (7 / 2 :: real)" by simp
  then have n: "to_numeric parse_decimal \<lparr>dtype = Object, cells = [PStr ''~'', PStr ''3.5'']\<rparr>
      = \<lparr>dtype = Float64, cells = [NA, PFloat (7 / 2)]\<rparr>"
    by (simp add: to_numeric_def parse_decimal_def parse_unsigned_def is_digit_def digit_chars_def
      nat_of_digits_def digit_value_def Let_def in_int64_def)
  have m: "fill_missing False \<lparr>dtype = Float64, cells = [NA, PFloat (7 / 2)]\<rparr>
      = \<lparr>dtype = Float64, cells = [PFloat (7 / 2), PFloat (7 / 2)]\<rparr>"
    by (simp add: fill_missing_def missing_count_def numbers_def List.map_filter_simps median_def
        fillna_def)
  have l: "fill_missing False \<lparr>dtype = Object, cells = [PStr ''01'', PStr ''02'']\<rparr>
      = \<lparr>dtype = Object, cells = [PStr ''01'', PStr ''02'']\<rparr>"
    by (simp add: fill_missing_def missing_count_def)
  have 1: "map_of (columns (clean_nutrition False 0 (\<lambda>v. []) parse_decimal ?f)) ''locationid''
       = Some \<lparr>dtype = Object, cells = [PStr ''01'', PStr ''02'']\<rparr>"
    using col_clean_nutrition_other [where k = "''locationid''" and cow = False and now = 0
        and ostr = "\<lambda>v. []" and parse = parse_decimal and f = ?f]
    by (simp add: columns_to_drop_def numeric_cols_def year_cols_def l)
  have 2: "map_of (columns (clean_nutrition False 0 (\<lambda>v. []) parse_decimal ?f)) ''data_value''
       = Some \<lparr>dtype = Float64, cells = [PFloat (7 / 2), PFloat (7 / 2)]\<rparr>"
    using col_clean_nutrition_other [where k = "''data_value''" and cow = False and now = 0
        and ostr = "\<lambda>v. []" and parse = parse_decimal and f = ?f]
    by (simp add: columns_to_drop_def numeric_cols_def year_cols_def n m)
  from t z e 1 2 show ?thesis by (simp only: simp_thms)
qed

subsection \<open>Cells of coerced, filled and subtracted columns\<close>

lemma length_to_numeric [simp]: "length (cells (to_numeric parse c)) = length (cells c)"
  by (simp add: to_numeric_def Let_def)


lemma length_fill_missing [simp]: "length (cells (fill_missing cow c)) = length (cells c)"
  by (simp add: fill_missing_def fillna_def split: option.splits)

lemma dtype_fill_missing [simp]: "dtype (fill_missing cow c) = dtype c"
  by (simp add: fill_missing_def split: option.splits)

lemma fill_missing_keeps:
  "i < length (cells c) \<Longrightarrow> cells c ! i \<noteq> NA \<Longrightarrow> cells (fill_missing cow c) ! i = cells c ! i"
  by (simp add: fill_missing_def fillna_def split: option.splits)




lemma fill_missing_no_median:
  "dtype c \<in> {Float64, Int64} \<Longrightarrow> median (numbers (cells c)) = None \<Longrightarrow> fill_missing cow c = c"
  by (simp add: fill_missing_def)

lemma col_sub_nth:
  "i < length (cells a) \<Longrightarrow> i < length (cells b) \<Longrightarrow>
   cells (col_sub a b) ! i =
     (if dtype a = Int64 \<and> dtype b = Int64 then int64_sub (cells a ! i) (cells b ! i)
      else float_sub (cells a ! i) (cells b ! i))"
  by (simp add: col_sub_def)

lemma dtype_col_sub:
  "dtype (col_sub a b) = (if dtype a = Int64 \<and> dtype b = Int64 then Int64 else Float64)"
  by (simp add: col_sub_def)

lemma float_sub_numbers: "num_value x = Some a \<Longrightarrow> num_value y = Some b \<Longrightarrow> float_sub x y = PFloat (a - b)"
  by (simp add: float_sub_def)



lemma wrap64_id: "in_int64 x \<Longrightarrow> wrap64 x = x"
  by (simp add: wrap64_def in_int64_def)

lemma num_value_not_NA: "num_value x = Some a \<Longrightarrow> x \<noteq> NA"
  by auto

text \<open>The invariant of numeric columns is kept by the coercion and by the fill loop.\<close>

lemma is_float_or_NA_as_float: "is_float_or_NA (as_float (to_numeric_cell parse v))"
proof (cases v)
  case (PStr s)
  then show ?thesis by (cases "parse s") simp_all
qed simp_all

lemma wf_to_numeric: "wf_column c \<Longrightarrow> wf_column (to_numeric parse c)"
  by (auto simp add: to_numeric_def wf_column_def Let_def list_all_iff is_float_or_NA_as_float)

lemma is_int64_not_NA: "is_int64 v \<Longrightarrow> v \<noteq> NA"
  by auto

lemma wf_fill_missing: "wf_column c \<Longrightarrow> wf_column (fill_missing cow c)"
proof (cases "dtype c = Int64")
  case True
  assume "wf_column c"
  with True have "\<forall>v \<in> set (cells c). v \<noteq> NA"
    by (auto simp add: wf_column_def list_all_iff dest: is_int64_not_NA)
  then have "missing_count c = 0"
    by (simp add: missing_count_def filter_empty_conv)
  then have "fill_missing cow c = c"
    by (simp add: fill_missing_def)
  with \<open>wf_column c\<close> show ?thesis by simp
next
  case False
  assume "wf_column c"
  with False show ?thesis
    by (auto simp add: wf_column_def fill_missing_def fillna_def list_all_iff split: option.splits)
qed

lemma int64_cell:
  assumes "wf_column c" "dtype c = Int64" "i < length (cells c)"
  shows "\<exists>a. cells c ! i = PInt a \<and> in_int64 a"
proof -
  from assms have "is_int64 (cells c ! i)"
    by (simp add: wf_column_def list_all_length)
  then show ?thesis by (cases "cells c ! i") simp_all
qed

lemma col_clean_nutrition_limits:
  "map_of (columns (clean_nutrition cow now ostr parse f)) ''low_confidence_limit''
     = map_option (\<lambda>c. fill_missing cow (to_numeric parse c)) (map_of (columns f) ''low_confidence_limit'')"
  "map_of (columns (clean_nutrition cow now ostr parse f)) ''high_confidence_limit''
     = map_option (\<lambda>c. fill_missing cow (to_numeric parse c)) (map_of (columns f) ''high_confidence_limit'')"
  using col_clean_nutrition_other [where k = "''low_confidence_limit''" and cow = cow and now = now
      and ostr = ostr and parse = parse and f = f]
    col_clean_nutrition_other [where k = "''high_confidence_limit''" and cow = cow and now = now
      and ostr = ostr and parse = parse and f = f]
  by (simp_all add: columns_to_drop_def numeric_cols_def)

lemma kept_cell:
  assumes "i < length (cells c)" "num_value (cells (to_numeric parse c) ! i) = Some x"
  shows "cells (fill_missing cow (to_numeric parse c)) ! i = cells (to_numeric parse c) ! i"
proof -
  have "cells (to_numeric parse c) ! i \<noteq> NA"
    using assms(2) by auto
  then show ?thesis
    using assms(1) by (intro fill_missing_keeps) simp_all
qed

subsection \<open>The width of a row with two numeric limits\<close>

text \<open>
  C4 (amended). For every row of the nutrition table at which \<^verbatim>\<open>pd.to_numeric\<close> reads
  the raw \<^verbatim>\<open>high_confidence_limit\<close> as the number \<open>h\<close> and the raw
  \<^verbatim>\<open>low_confidence_limit\<close> as the number \<open>l\<close>, the cleaned table keeps \<open>h\<close> and \<open>l\<close> in
  that row, whether or not the fill loop takes effect. Its
  \<^verbatim>\<open>confidence_interval_width\<close> there is the difference of the two cleaned cells: when
  one of the two cleaned columns is \<^verbatim>\<open>float64\<close> it is the float \<open>h - l\<close>; when both are
  \<^verbatim>\<open>int64\<close> it is the integer difference wrapped into 64 bits, which is \<open>h - l\<close> whenever
  \<open>h - l\<close> fits 64 bits. Nothing asks for \<open>l \<le> h\<close>: the width may be negative. (A raw
  limit that is present but is not read as a number is treated as missing, and then
  the width is not the difference of the raw limits: see the counterexample.)
\<close>

theorem confidence_interval_width_difference:
  assumes "map_of (columns f) ''low_confidence_limit'' = Some lo"
    and "map_of (columns f) ''high_confidence_limit'' = Some hi"
    and "wf_column lo" and "wf_column hi"
    and "i < length (cells lo)" and "i < length (cells hi)"
    and "num_value (cells (to_numeric parse lo) ! i) = Some l"
    and "num_value (cells (to_numeric parse hi) ! i) = Some h"
  shows "\<exists>lo' hi' w.
      map_of (columns (clean_nutrition cow now ostr parse f)) ''low_confidence_limit'' = Some lo'
    \<and> map_of (columns (clean_nutrition cow now ostr parse f)) ''high_confidence_limit'' = Some hi'
    \<and> map_of (columns (clean_nutrition cow now ostr parse f)) ''confidence_interval_width'' = Some w
    \<and> num_value (cells lo' ! i) = Some l
    \<and> num_value (cells hi' ! i) = Some h
    \<and> (dtype hi' = Int64 \<and> dtype lo' = Int64 \<longrightarrow>
         dtype w = Int64
         \<and> (\<exists>a b. cells hi' ! i = PInt a \<and> cells lo' ! i = PInt b
              \<and> cells w ! i = PInt (wrap64 (a - b))
              \<and> (in_int64 (a - b) \<longrightarrow> cells w ! i = PInt (a - b)
                    \<and> num_value (cells w ! i) = Some (h - l))))
    \<and> (\<not> (dtype hi' = Int64 \<and> dtype lo' = Int64) \<longrightarrow>
         dtype w = Float64 \<and> cells w ! i = PFloat (h - l))"
proof -
  let ?lo = "fill_missing cow (to_numeric parse lo)"
  let ?hi = "fill_missing cow (to_numeric parse hi)"
  let ?w = "col_sub ?hi ?lo"
  have lo: "cells ?lo ! i = cells (to_numeric parse lo) ! i"
    using assms(5,7) by (rule kept_cell)
  have hi: "cells ?hi ! i = cells (to_numeric parse hi) ! i"
    using assms(6,8) by (rule kept_cell)
  have nl: "num_value (cells ?lo ! i) = Some l" and nh: "num_value (cells ?hi ! i) = Some h"
    using assms(7,8) by (simp_all add: lo hi)
  have wlo: "wf_column ?lo" and whi: "wf_column ?hi"
    using assms(3,4) by (simp_all add: wf_to_numeric wf_fill_missing)
  have sub: "cells ?w ! i =
     (if dtype ?hi = Int64 \<and> dtype ?lo = Int64 then int64_sub (cells ?hi ! i) (cells ?lo ! i)
      else float_sub (cells ?hi ! i) (cells ?lo ! i))"
    using assms(5,6) by (intro col_sub_nth) simp_all
  have int: "dtype ?w = Int64
         \<and> (\<exists>a b. cells ?hi ! i = PInt a \<and> cells ?lo ! i = PInt b
              \<and> cells ?w ! i = PInt (wrap64 (a - b))
              \<and> (in_int64 (a - b) \<longrightarrow> cells ?w ! i = PInt (a - b)
                    \<and> num_value (cells ?w ! i) = Some (h - l)))"
    if d: "dtype ?hi = Int64 \<and> dtype ?lo = Int64"
  proof -
    from d whi assms(6) obtain a where a: "cells ?hi ! i = PInt a"
      using int64_cell [of ?hi i] by auto
    from d wlo assms(5) obtain b where b: "cells ?lo ! i = PInt b"
      using int64_cell [of ?lo i] by auto
    from a b nl nh have r: "h = of_int a" "l = of_int b" by simp_all
    have w: "cells ?w ! i = PInt (wrap64 (a - b))"
      using d by (simp add: sub a b)
    have fin: "in_int64 (a - b) \<longrightarrow> cells ?w ! i = PInt (a - b)
        \<and> num_value (cells ?w ! i) = Some (h - l)"
      by (simp add: w wrap64_id r)
    have dt: "dtype ?w = Int64"
      using d by (simp add: dtype_col_sub)
    from dt a b w fin show ?thesis by blast
  qed
  have flt: "dtype ?w = Float64 \<and> cells ?w ! i = PFloat (h - l)"
    if "\<not> (dtype ?hi = Int64 \<and> dtype ?lo = Int64)"
    using that nl nh by (simp add: sub dtype_col_sub float_sub_numbers)
  have "map_of (columns (clean_nutrition cow now ostr parse f)) ''low_confidence_limit'' = Some ?lo"
    "map_of (columns (clean_nutrition cow now ostr parse f)) ''high_confidence_limit'' = Some ?hi"
    using assms(1,2) by (simp_all add: col_clean_nutrition_limits)
  moreover have "map_of (columns (clean_nutrition cow now ostr parse f)) ''confidence_interval_width''
      = Some ?w"
    using assms(1,2) by (rule col_clean_nutrition_width)
  ultimately show ?thesis
    using nl nh int flt by blast
qed

theorem confidence_interval_width_difference_witness:
  "(\<exists>w. map_of (columns (clean_nutrition False 0 (\<lambda>v. []) parse_decimal
        \<lparr>nrows = 2, columns =
          [(''low_confidence_limit'', \<lparr>dtype = Object, cells = [PStr ''12.5'', PStr ''30'']\<rparr>),
           (''high_confidence_limit'', \<lparr>dtype = Object, cells = [PStr ''10.0'', PStr ''35'']\<rparr>)]\<rparr>))
        ''confidence_interval_width'' = Some w
     \<and> cells w ! 0 = PFloat (10 - 25 / 2))
   \<and> (\<exists>w. map_of (columns (clean_nutrition False 0 (\<lambda>v. []) parse_decimal
        \<lparr>nrows = 1, columns =
          [(''low_confidence_limit'', \<lparr>dtype = Object, cells = [PStr ''30'']\<rparr>),
           (''high_confidence_limit'', \<lparr>dtype = Object, cells = [PStr ''35'']\<rparr>)]\<rparr>))
        ''confidence_interval_width'' = Some w
     \<and> cells w ! 0 = PInt 5)"
proof -
  let ?lo = "\<lparr>dtype = Object, cells = [PStr ''12.5'', PStr ''30'']\<rparr>"
  let ?hi = "\<lparr>dtype = Object, cells = [PStr ''10.0'', PStr ''35'']\<rparr>"
  let ?f = "\<lparr>nrows = 2, columns = [(''low_confidence_limit'', ?lo), (''high_confidence_limit'', ?hi)]\<rparr>"
  let ?lo2 = "\<lparr>dtype = Object, cells = [PStr ''30'']\<rparr>"
  let ?hi2 = "\<lparr>dtype = Object, cells = [PStr ''35'']\<rparr>"
  let ?f2 = "\<lparr>nrows = 1, columns = [(''low_confidence_limit'', ?lo2), (''high_confidence_limit'', ?hi2)]\<rparr>"
  have p: "parse_decimal ''30'' = PInt 30" "parse_decimal ''35'' = PInt 35"
    by (simp_all add: parse_decimal_def parse_unsigned_def is_digit_def digit_chars_def
        nat_of_digits_def digit_value_def Let_def)
  have tl: "to_numeric parse_decimal ?lo = \<lparr>dtype = Float64, cells = [PFloat (25 / 2), PFloat 30]\<rparr>"
    by (simp add: to_numeric_def parse_examples p in_int64_def)
  have th: "to_numeric parse_decimal ?hi = \<lparr>dtype = Float64, cells = [PFloat 10, PFloat 35]\<rparr>"
    by (simp add: to_numeric_def parse_examples p in_int64_def)
  have tl2: "to_numeric parse_decimal ?lo2 = \<lparr>dtype = Int64, cells = [PInt 30]\<rparr>"
    by (simp add: to_numeric_def p in_int64_def)
  have th2: "to_numeric parse_decimal ?hi2 = \<lparr>dtype = Int64, cells = [PInt 35]\<rparr>"
    by (simp add: to_numeric_def p in_int64_def)
  have 1: "map_of (columns ?f) ''low_confidence_limit'' = Some ?lo" by simp
  have 2: "map_of (columns ?f) ''high_confidence_limit'' = Some ?hi" by simp
  have 3: "wf_column ?lo" "wf_column ?hi" by (simp_all add: wf_column_def)
  have 4: "0 < length (cells ?lo)" "0 < length (cells ?hi)" by simp_all
  have 5: "num_value (cells (to_numeric parse_decimal ?lo) ! 0) = Some (25 / 2)"
    by (simp add: tl)
  have 6: "num_value (cells (to_numeric parse_decimal ?hi) ! 0) = Some 10"
    by (simp add: th)
  have d: "dtype (fill_missing False (to_numeric parse_decimal ?lo)) = Float64"
    by (simp add: tl)
  have A: "\<exists>w. map_of (columns (clean_nutrition False 0 (\<lambda>v. []) parse_decimal ?f))
        ''confidence_interval_width'' = Some w \<and> cells w ! 0 = PFloat (10 - 25 / 2)"
    using confidence_interval_width_difference [OF 1 2 3 4 5 6, where cow = False and now = 0
      and ostr = "\<lambda>v. []"]
  proof (elim exE conjE)
    fix lo' hi' w
    assume a: "map_of (columns (clean_nutrition False 0 (\<lambda>v. []) parse_decimal ?f))
        ''low_confidence_limit'' = Some lo'"
      and w: "map_of (columns (clean_nutrition False 0 (\<lambda>v. []) parse_decimal ?f))
        ''confidence_interval_width'' = Some w"
      and r: "\<not> (dtype hi' = Int64 \<and> dtype lo' = Int64) \<longrightarrow>
         dtype w = Float64 \<and> cells w ! 0 = PFloat (10 - 25 / 2)"
    from a have "lo' = fill_missing False (to_numeric parse_decimal ?lo)"
      by (simp add: col_clean_nutrition_limits)
    with d r have "cells w ! 0 = PFloat (10 - 25 / 2)" by simp
    with w show ?thesis by blast
  qed
  have 1: "map_of (columns ?f2) ''low_confidence_limit'' = Some ?lo2" by simp
  have 2: "map_of (columns ?f2) ''high_confidence_limit'' = Some ?hi2" by simp
  have 3: "wf_column ?lo2" "wf_column ?hi2" by (simp_all add: wf_column_def)
  have 4: "0 < length (cells ?lo2)" "0 < length (cells ?hi2)" by simp_all
  have 5: "num_value (cells (to_numeric parse_decimal ?lo2) ! 0) = Some 30"
    by (simp add: tl2)
  have 6: "num_value (cells (to_numeric parse_decimal ?hi2) ! 0) = Some 35"
    by (simp add: th2)
  have fl: "fill_missing False (to_numeric parse_decimal ?lo2) = \<lparr>dtype = Int64, cells = [PInt 30]\<rparr>"
    "fill_missing False (to_numeric parse_decimal ?hi2) = \<lparr>dtype = Int64, cells = [PInt 35]\<rparr>"
    by (simp_all add: tl2 th2 fill_missing_def missing_count_def)
  have B: "\<exists>w. map_of (columns (clean_nutrition False 0 (\<lambda>v. []) parse_decimal ?f2))
        ''confidence_interval_width'' = Some w \<and> cells w ! 0 = PInt 5"
    using confidence_interval_width_difference [OF 1 2 3 4 5 6, where cow = False and now = 0
      and ostr = "\<lambda>v. []"]
  proof (elim exE conjE)
    fix lo' hi' w
    assume a: "map_of (columns (clean_nutrition False 0 (\<lambda>v. []) parse_decimal ?f2))
        ''low_confidence_limit'' = Some lo'"
      and b: "map_of (columns (clean_nutrition False 0 (\<lambda>v. []) parse_decimal ?f2))
        ''high_confidence_limit'' = Some hi'"
      and w: "map_of (columns (clean_nutrition False 0 (\<lambda>v. []) parse_decimal ?f2))
        ''confidence_interval_width'' = Some w"
      and r: "dtype hi' = Int64 \<and> dtype lo' = Int64 \<longrightarrow>
         dtype w = Int64
         \<and> (\<exists>a b. cells hi' ! 0 = PInt a \<and> cells lo' ! 0 = PInt b
              \<and> cells w ! 0 = PInt (wrap64 (a - b))
              \<and> (in_int64 (a - b) \<longrightarrow> cells w ! 0 = PInt (a - b)
                    \<and> num_value (cells w ! 0) = Some (35 - 30)))"
    from a b have "lo' = \<lparr>dtype = Int64, cells = [PInt 30]\<rparr>"
      "hi' = \<lparr>dtype = Int64, cells = [PInt 35]\<rparr>"
      by (simp_all add: col_clean_nutrition_limits fl)
    with r have "cells w ! 0 = PInt 5"
      by (auto simp add: in_int64_def)
    with w show ?thesis by blast
  qed
  from A B show ?thesis by (rule conjI)
qed

theorem confidence_interval_width_counterexample:
  "map_of (columns (clean_nutrition False 0 (\<lambda>v. []) parse_decimal
        \<lparr>nrows = 1, columns =
          [(''low_confidence_limit'', \<lparr>dtype = Object, cells = [PStr ''~'']\<rparr>),
           (''high_confidence_limit'', \<lparr>dtype = Object, cells = [PStr ''20'']\<rparr>)]\<rparr>))
        ''confidence_interval_width'' = Some \<lparr>dtype = Float64, cells = [NA]\<rparr>
   \<and> map_of (columns (clean_nutrition False 0 (\<lambda>v. []) parse_decimal
        \<lparr>nrows = 2, columns =
          [(''low_confidence_limit'', \<lparr>dtype = Object, cells = [PStr ''~'', PStr ''5'']\<rparr>),
           (''high_confidence_limit'', \<lparr>dtype = Object, cells = [PStr ''20'', PStr ''30'']\<rparr>)]\<rparr>))
        ''confidence_interval_width'' = Some \<lparr>dtype = Float64, cells = [PFloat 15, PFloat 25]\<rparr>
   \<and> map_of (columns (clean_nutrition False 0 (\<lambda>v. []) parse_decimal
        \<lparr>nrows = 1, columns =
          [(''low_confidence_limit'', \<lparr>dtype = Int64, cells = [PInt (- 1)]\<rparr>),
           (''high_confidence_limit'', \<lparr>dtype = Int64, cells = [PInt 9223372036854775807]\<rparr>)]\<rparr>))
        ''confidence_interval_width'' = Some \<lparr>dtype = Int64, cells = [PInt (- 9223372036854775808)]\<rparr>"
proof -
  let ?lo1 = "\<lparr>dtype = Object, cells = [PStr ''~'']\<rparr>"
  let ?hi1 = "\<lparr>dtype = Object, cells = [PStr ''20'']\<rparr>"
  let ?f1 = "\<lparr>nrows = 1, columns = [(''low_confidence_limit'', ?lo1), (''high_confidence_limit'', ?hi1)]\<rparr>"
  let ?lo2 = "\<lparr>dtype = Object, cells = [PStr ''~'', PStr ''5'']\<rparr>"
  let ?hi2 = "\<lparr>dtype = Object, cells = [PStr ''20'', PStr ''30'']\<rparr>"
  let ?f2 = "\<lparr>nrows = 2, columns = [(''low_confidence_limit'', ?lo2), (''high_confidence_limit'', ?hi2)]\<rparr>"
  let ?lo3 = "\<lparr>dtype = Int64, cells = [PInt (- 1)]\<rparr>"
  let ?hi3 = "\<lparr>dtype = Int64, cells = [PInt 9223372036854775807]\<rparr>"
  let ?f3 = "\<lparr>nrows = 1, columns = [(''low_confidence_limit'', ?lo3), (''high_confidence_limit'', ?hi3)]\<rparr>"
  have p: "parse_decimal ''20'' = PInt 20" "parse_decimal ''30'' = PInt 30"
    "parse_decimal ''5'' = PInt 5"
    by (simp_all add: parse_decimal_def parse_unsigned_def is_digit_def digit_chars_def
        nat_of_digits_def digit_value_def Let_def)
  have t1: "to_numeric parse_decimal ?lo1 = \<lparr>dtype = Float64, cells = [NA]\<rparr>"
    "to_numeric parse_decimal ?hi1 = \<lparr>dtype = Int64, cells = [PInt 20]\<rparr>"
    by (simp_all add: to_numeric_def parse_examples p in_int64_def)
  have t2: "to_numeric parse_decimal ?lo2 = \<lparr>dtype = Float64, cells = [NA, PFloat 5]\<rparr>"
    "to_numeric parse_decimal ?hi2 = \<lparr>dtype = Int64, cells = [PInt 20, PInt 30]\<rparr>"
    by (simp_all add: to_numeric_def parse_examples p in_int64_def)
  have t3: "to_numeric parse_decimal ?lo3 = ?lo3" "to_numeric parse_decimal ?hi3 = ?hi3"
    by (simp_all add: to_numeric_def)
  have f1: "fill_missing False \<lparr>dtype = Float64, cells = [NA]\<rparr> = \<lparr>dtype = Float64, cells = [NA]\<rparr>"
    "fill_missing False \<lparr>dtype = Int64, cells = [PInt 20]\<rparr> = \<lparr>dtype = Int64, cells = [PInt 20]\<rparr>"
    by (simp_all add: fill_missing_def missing_count_def numbers_def List.map_filter_simps median_def)
  have f2: "fill_missing False \<lparr>dtype = Float64, cells = [NA, PFloat 5]\<rparr>
      = \<lparr>dtype = Float64, cells = [PFloat 5, PFloat 5]\<rparr>"
    "fill_missing False \<lparr>dtype = Int64, cells = [PInt 20, PInt 30]\<rparr>
      = \<lparr>dtype = Int64, cells = [PInt 20, PInt 30]\<rparr>"
    by (simp_all add: fill_missing_def missing_count_def numbers_def List.map_filter_simps median_def
        fillna_def)
  have f3: "fill_missing False ?lo3 = ?lo3" "fill_missing False ?hi3 = ?hi3"
    by (simp_all add: fill_missing_def missing_count_def)
  have 1: "map_of (columns (clean_nutrition False 0 (\<lambda>v. []) parse_decimal ?f1))
        ''confidence_interval_width'' = Some \<lparr>dtype = Float64, cells = [NA]\<rparr>"
    using col_clean_nutrition_width [where f = ?f1 and lo = ?lo1 and hi = ?hi1 and cow = False
        and now = 0 and ostr = "\<lambda>v. []" and parse = parse_decimal]
    by (simp add: t1 f1 col_sub_def float_sub_def)
  have 2: "map_of (columns (clean_nutrition False 0 (\<lambda>v. []) parse_decimal ?f2))
        ''confidence_interval_width'' = Some \<lparr>dtype = Float64, cells = [PFloat 15, PFloat 25]\<rparr>"
    using col_clean_nutrition_width [where f = ?f2 and lo = ?lo2 and hi = ?hi2 and cow = False
        and now = 0 and ostr = "\<lambda>v. []" and parse = parse_decimal]
    by (simp add: t2 f2 col_sub_def float_sub_def)
  have 3: "map_of (columns (clean_nutrition False 0 (\<lambda>v. []) parse_decimal ?f3))
        ''confidence_interval_width'' = Some \<lparr>dtype = Int64, cells = [PInt (- 9223372036854775808)]\<rparr>"
    using col_clean_nutrition_width [where f = ?f3 and lo = ?lo3 and hi = ?hi3 and cow = False
        and now = 0 and ostr = "\<lambda>v. []" and parse = parse_decimal]
    by (simp add: t3 f3 col_sub_def wrap64_def)
  from 1 2 3 show ?thesis by (intro conjI)
qed

subsection \<open>Missing values after the fill loop\<close>

lemma col_clean_ev:
  assumes "k \<notin> set columns_to_drop" "k \<noteq> ''_record_id''" "k \<noteq> ''_processed_at''"
  shows "map_of (columns (clean_ev cow now ostr parse f)) k
     = map_option (\<lambda>c. fill_missing cow (ev_convert ostr parse c)) (map_of (columns f) k)"
  using assms
  by (simp add: clean_ev_def col_add_bookkeeping col_map_columns col_drop_internal
      option.map_comp comp_def)

lemma median_None: "median xs = None \<longleftrightarrow> xs = []"
proof (cases "xs = []")
  case True
  then show ?thesis by (simp add: median_def)
next
  case False
  then have n: "length (sort xs) \<noteq> 0" by simp
  show ?thesis
  proof (cases "odd (length (sort xs))")
    case True
    with n have "median xs = Some (sort xs ! (length (sort xs) div 2))"
      unfolding median_def Let_def by (simp only: if_False if_True simp_thms)
    with False show ?thesis by simp
  next
    case even: False
    with n have "median xs = Some ((sort xs ! (length (sort xs) div 2 - 1)
        + sort xs ! (length (sort xs) div 2)) / 2)"
      unfolding median_def Let_def by (simp only: if_False if_True simp_thms)
    with False show ?thesis by simp
  qed
qed

lemma NA_notin_fillna: "v \<noteq> NA \<Longrightarrow> NA \<notin> set (fillna v xs)"
  by (auto simp add: fillna_def)

lemma missing_count_zero: "missing_count c = 0 \<longleftrightarrow> NA \<notin> set (cells c)"
  by (auto simp add: missing_count_def filter_empty_conv)

text \<open>Where the fill loop takes effect (no copy-on-write), a column still holds a
  missing value after its turn only if it is a numeric column without a single number,
  and then the loop left it as it was.\<close>

lemma fill_missing_NA:
  assumes "NA \<in> set (cells (fill_missing False c))"
  shows "dtype c \<in> {Float64, Int64} \<and> numbers (cells c) = [] \<and> fill_missing False c = c"
proof (cases "0 < missing_count c")
  case False
  then have "fill_missing False c = c" by (simp add: fill_missing_def)
  with assms False show ?thesis by (simp add: missing_count_zero)
next
  case True
  show ?thesis
  proof (cases "dtype c \<in> {Float64, Int64}")
    case False
    with True have "cells (fill_missing False c) = fillna (PStr ''Unknown'') (cells c)"
      by (simp add: fill_missing_def)
    with assms show ?thesis by (simp add: NA_notin_fillna)
  next
    case numeric: True
    show ?thesis
    proof (cases "median (numbers (cells c))")
      case None
      with numeric show ?thesis by (simp add: fill_missing_no_median median_None [symmetric])
    next
      case (Some m)
      with True numeric have "cells (fill_missing False c) = fillna (PFloat m) (cells c)"
        by (simp add: fill_missing_def)
      with assms show ?thesis by (simp add: NA_notin_fillna)
    qed
  qed
qed

lemma clean_ev_missing_only_numberless:
  assumes "map_of (columns (clean_ev False now ostr parse f)) k = Some c" "NA \<in> set (cells c)"
  shows "dtype c \<in> {Float64, Int64} \<and> numbers (cells c) = []"
proof -
  have rid: "k \<noteq> ''_record_id''"
    using assms by (auto simp add: clean_ev_def record_id_add_bookkeeping)
  have pat: "k \<noteq> ''_processed_at''"
    using assms by (auto simp add: clean_ev_def add_bookkeeping_def col_set_column)
  have "k \<notin> set columns_to_drop"
  proof
    assume "k \<in> set columns_to_drop"
    then have "map_of (columns (clean_ev False now ostr parse f)) k = None"
      using rid pat
      by (simp add: clean_ev_def col_add_bookkeeping col_map_columns col_drop_internal)
    with assms(1) show False by simp
  qed
  with rid pat assms(1) obtain c0 where "c = fill_missing False c0"
    by (auto simp add: col_clean_ev)
  with assms(2) fill_missing_NA [of c0] show ?thesis by simp
qed

text \<open>
  C1 (the inputs on which it fails). An EV column of date strings passes the digit
  test of the conversion loop; \<^verbatim>\<open>pd.to_numeric\<close> reads none of its values, the median
  of the column is \<^verbatim>\<open>NaN\<close>, and \<^verbatim>\<open>fillna\<close> leaves every cell missing. The same
  happens to a nutrition column of the fixed list none of whose values reads as a
  number. The cleaned tables then still hold missing values, whether or not
  copy-on-write is in force.
\<close>

theorem missing_values_remain:
  "map_of (columns (clean_ev cow 0 (\<lambda>v. []) parse_decimal
      \<lparr>nrows = 2, columns =
        [(''Sale Date'', \<lparr>dtype = Object, cells = [PStr ''2020-01-01'', PStr ''2021-06-30'']\<rparr>)]\<rparr>))
      ''Sale Date''
     = Some \<lparr>dtype = Float64, cells = [NA, NA]\<rparr>
   \<and> map_of (columns (clean_nutrition cow 0 (\<lambda>v. []) parse_decimal
      \<lparr>nrows = 2, columns = [(''data_value'', \<lparr>dtype = Object, cells = [PStr ''~'', NA]\<rparr>)]\<rparr>))
      ''data_value''
     = Some \<lparr>dtype = Float64, cells = [NA, NA]\<rparr>"
proof -
  let ?c = "\<lparr>dtype = Object, cells = [PStr ''2020-01-01'', PStr ''2021-06-30'']\<rparr>"
  let ?d = "\<lparr>dtype = Object, cells = [PStr ''~'', NA]\<rparr>"
  have p: "parse_decimal ''2021-06-30'' = NA"
    by (simp add: parse_decimal_def parse_unsigned_def is_digit_def digit_chars_def Let_def)
  have tc: "to_numeric parse_decimal ?c = \<lparr>dtype = Float64, cells = [NA, NA]\<rparr>"
    by (simp add: to_numeric_def parse_examples p)
  have "looks_numeric (\<lambda>v. []) Object (PStr ''2020-01-01'')"
    by (simp add: looks_numeric_def isdigit_def py_remove_def is_digit_def digit_chars_def)
  then have ec: "ev_convert (\<lambda>v. []) parse_decimal ?c = \<lparr>dtype = Float64, cells = [NA, NA]\<rparr>"
    by (simp add: ev_convert_def sample_val_def dropna_def tc)
  have td: "to_numeric parse_decimal ?d = \<lparr>dtype = Float64, cells = [NA, NA]\<rparr>"
    by (simp add: to_numeric_def parse_examples)
  have m: "fill_missing cow \<lparr>dtype = Float64, cells = [NA, NA]\<rparr> = \<lparr>dtype = Float64, cells = [NA, NA]\<rparr>"
    by (simp add: fill_missing_def numbers_def List.map_filter_simps median_def)
  have 1: "map_of (columns (clean_ev cow 0 (\<lambda>v. []) parse_decimal
      \<lparr>nrows = 2, columns = [(''Sale Date'', ?c)]\<rparr>)) ''Sale Date''
     = Some \<lparr>dtype = Float64, cells = [NA, NA]\<rparr>"
    using col_clean_ev [where k = "''Sale Date''" and cow = cow and now = 0 and ostr = "\<lambda>v. []"
        and parse = parse_decimal and f = "\<lparr>nrows = 2, columns = [(''Sale Date'', ?c)]\<rparr>"]
    by (simp add: columns_to_drop_def ec m)
  have 2: "map_of (columns (clean_nutrition cow 0 (\<lambda>v. []) parse_decimal
      \<lparr>nrows = 2, columns = [(''data_value'', ?d)]\<rparr>)) ''data_value''
     = Some \<lparr>dtype = Float64, cells = [NA, NA]\<rparr>"
    using col_clean_nutrition_other [where k = "''data_value''" and cow = cow and now = 0
        and ostr = "\<lambda>v. []" and parse = parse_decimal
        and f = "\<lparr>nrows = 2, columns = [(''data_value'', ?d)]\<rparr>"]
    by (simp add: columns_to_drop_def numeric_cols_def td m)
  from 1 2 show ?thesis by (simp only: simp_thms)
qed

subsection \<open>The width of a row with an imputed limit\<close>








end
